theory Spec2Isabelle
  imports Main
begin

section \<open>Data model of the proxy (core/ProxyService.ts, core/ClientFactory.ts)\<close>

text \<open>
  A backend tool descriptor as the SDK's \<open>Tool\<close>: \<open>name\<close>, optional \<open>description\<close>
  and the input schema, which the proxy never inspects (kept as an opaque string).
\<close>

record Tool =
  tool_name :: string
  tool_description :: "string option"
  tool_inputSchema :: string

text \<open>
  \<open>ConnectedClient\<close> of ClientFactory.ts: the backend's \<open>name\<close> and the \<open>client\<close>
  object, modelled by the identity of the \<open>Client\<close> instance (a number drawn from an
  allocation counter at each \<open>new Client\<close>). The \<open>cleanup\<close> closure closes that client's
  transport, so invoking it is recorded as an effect on the client.
\<close>

record ConnectedClient =
  cc_client :: nat
  cc_name :: string

text \<open>The value type of \<open>toolToClientMap\<close>: \<open>{ client, toolInfo }\<close>.\<close>

record ToolEntry =
  te_client :: ConnectedClient
  te_toolInfo :: Tool

text \<open>
  Modelled from the spec: the per-tool settings of \<open>ToolConfig\<close>, declared in
  core/ConfigService.ts (not among the sources): \<open>{enabled, exposedName?,
  exposedDescription?}\<close>. Every field may be absent, as the code tests
  \<open>toolSettings.enabled !== false\<close> and \<open>overrideSettings?.exposedName || ...\<close>.
  \<open>ToolConfig.tools\<close> is a record from qualified names to settings.
\<close>

record ToolSettings =
  ts_enabled :: "bool option"
  ts_exposedName :: "string option"
  ts_exposedDescription :: "string option"

type_synonym ToolConfig = "string \<rightharpoonup> ToolSettings"

text \<open>
  The \<open>active\<close> property of a server entry as it can arrive from the JSON configuration:
  absent, a boolean, or a string.
\<close>

datatype ActiveFlag = ActiveUndefined | ActiveBool bool | ActiveString string

text \<open>
  Modelled from the spec: \<open>TransportConfig\<close> and its guards \<open>isSSEConfig\<close>,
  \<open>isStdioConfig\<close>, \<open>isHttpConfig\<close> of core/ConfigService.ts (not among the sources): a
  tagged union over subprocess (command), event stream (URL) and HTTP stream (URL); a
  descriptor that none of the guards accepts is \<open>UnknownTransport\<close>.
\<close>

datatype TransportKind = SSE string | Stdio string | Http string | UnknownTransport

record TransportConfig =
  tc_active :: ActiveFlag
  tc_kind :: TransportKind

type_synonym Config = "(string \<times> TransportConfig) list"

text \<open>An error thrown by a backend request: its \<open>name\<close>, \<open>code\<close> and \<open>message\<close>.\<close>

record McpError =
  err_name :: string
  err_code :: "int option"
  err_message :: string

text \<open>
  What lies outside the process: whether a transport can be constructed for a descriptor,
  whether the handshake \<open>client.connect\<close> of a backend succeeds at a given attempt
  (\<open>count\<close>), and the answer of a connected backend to the three discovery requests.
  The answers are functions of the backend only: a property of two reconciliation passes
  compares them with the backends behaving the same way in both.
\<close>

record Env =
  env_newTransport :: "TransportConfig \<Rightarrow> bool"
  env_connect :: "string \<Rightarrow> nat \<Rightarrow> bool"
  env_toolsList :: "ConnectedClient \<Rightarrow> McpError + Tool list"
  env_resourcesList :: "ConnectedClient \<Rightarrow> McpError + string list"
  env_promptsList :: "ConnectedClient \<Rightarrow> McpError + string list"

text \<open>
  The mutable fields of \<open>ProxyService\<close>. A JavaScript \<open>Map\<close> iterates in insertion order,
  so the three routing maps are association lists in that order.
\<close>

record ProxyState =
  currentConnectedClients :: "ConnectedClient list"
  toolToClientMap :: "(string \<times> ToolEntry) list"
  resourceToClientMap :: "(string \<times> ConnectedClient) list"
  promptToClientMap :: "(string \<times> ConnectedClient) list"
  currentToolConfig :: ToolConfig

definition initialState :: ProxyState where
  "initialState = \<lparr>currentConnectedClients = [], toolToClientMap = [],
     resourceToClientMap = [], promptToClientMap = [], currentToolConfig = Map.empty\<rparr>"

subsection \<open>JavaScript primitives\<close>

text \<open>
  \<open>Map.prototype.set\<close>: an existing key keeps its position and takes the new value, a
  new key is appended.
\<close>

fun map_set :: "'k \<Rightarrow> 'v \<Rightarrow> ('k \<times> 'v) list \<Rightarrow> ('k \<times> 'v) list" where
  "map_set k v [] = [(k, v)]"
| "map_set k v ((k', v') # m) =
     (if k' = k then (k, v) # m else (k', v') # map_set k v m)"

text \<open>\<open>a || b\<close> on an optional string: \<open>undefined\<close> and the empty string are falsy.\<close>

definition js_or :: "string option \<Rightarrow> string \<Rightarrow> string" where
  "js_or a b = (case a of None \<Rightarrow> b | Some s \<Rightarrow> if s = [] then b else s)"

definition js_or_opt :: "string option \<Rightarrow> string option \<Rightarrow> string option" where
  "js_or_opt a b = (case a of None \<Rightarrow> b | Some s \<Rightarrow> if s = [] then b else Some s)"

text \<open>\<open>String.prototype.toLowerCase\<close> on the ASCII letters.\<close>

definition toLowerChar :: "char \<Rightarrow> char" where
  "toLowerChar c =
     (case map_of (zip ''ABCDEFGHIJKLMNOPQRSTUVWXYZ'' ''abcdefghijklmnopqrstuvwxyz'') c of
        None \<Rightarrow> c
      | Some l \<Rightarrow> l)"

definition toLowerCase :: "string \<Rightarrow> string" where
  "toLowerCase s = map toLowerChar s"

text \<open>\<open>String(serverConf.active)\<close>.\<close>

fun activeToString :: "ActiveFlag \<Rightarrow> string" where
  "activeToString ActiveUndefined = ''undefined''"
| "activeToString (ActiveBool True) = ''true''"
| "activeToString (ActiveBool False) = ''false''"
| "activeToString (ActiveString s) = s"

subsection \<open>ClientFactory.ts\<close>

text \<open>
  \<open>createClient\<close> returns a client and a transport unless the transport kind is unknown
  or the transport's constructor throws.
\<close>

definition createClient :: "Env \<Rightarrow> string \<Rightarrow> TransportConfig \<Rightarrow> bool" where
  "createClient env nm conf =
     (case tc_kind conf of
        UnknownTransport \<Rightarrow> False
      | _ \<Rightarrow> env_newTransport env conf)"

text \<open>What \<open>createMcpClients\<close> does to the outside, in order.\<close>

datatype ConnEvent =
    ConnectAttempt string nat
  | ClientClosed string nat
  | Slept nat
  | Connected string nat

definition waitFor :: nat where
  "waitFor = 2500"

definition retries :: nat where
  "retries = 3"

text \<open>
  The \<open>while (retry)\<close> loop for one backend, entered with \<open>count\<close> failed attempts behind
  it and \<open>nid\<close> the identity the next \<open>Client\<close> object gets. It yields the connected
  client if any, the events, and the next free identity.
\<close>

function connectLoop ::
  "Env \<Rightarrow> string \<Rightarrow> TransportConfig \<Rightarrow> nat \<Rightarrow> nat \<Rightarrow>
     ConnectedClient option \<times> ConnEvent list \<times> nat" where
  "connectLoop env nm conf count nid =
     (if \<not> createClient env nm conf then (None, [], nid)
      else if env_connect env nm count
      then (Some \<lparr>cc_client = nid, cc_name = nm\<rparr>,
            [ConnectAttempt nm nid, Connected nm nid], Suc nid)
      else if Suc count < retries
      then (case connectLoop env nm conf (Suc count) (Suc nid) of
              (r, evs, nid') \<Rightarrow>
                (r, [ConnectAttempt nm nid, ClientClosed nm nid, Slept waitFor] @ evs, nid'))
      else (None, [ConnectAttempt nm nid], Suc nid))"
  by pat_completeness auto
termination
  by (relation "measure (\<lambda>(env, nm, conf, count, nid). retries - count)") auto

text \<open>\<open>createMcpClients\<close>: the backends one after the other, in the order of the entries.\<close>

fun createMcpClients ::
  "Env \<Rightarrow> nat \<Rightarrow> Config \<Rightarrow> ConnectedClient list \<times> ConnEvent list \<times> nat" where
  "createMcpClients env nid [] = ([], [], nid)"
| "createMcpClients env nid ((nm, conf) # rest) =
     (case connectLoop env nm conf 0 nid of
        (r, evs, nid') \<Rightarrow>
          (case createMcpClients env nid' rest of
             (cs, evs', nid'') \<Rightarrow>
               ((case r of None \<Rightarrow> [] | Some c \<Rightarrow> [c]) @ cs, evs @ evs', nid'')))"

subsection \<open>ProxyService.ts: aggregation\<close>

definition qualifiedName :: "string \<Rightarrow> string \<Rightarrow> string" where
  "qualifiedName backend tool = backend @ ''--'' @ tool"

text \<open>\<open>!toolSettings || toolSettings.enabled !== false\<close>.\<close>

definition isEnabled :: "ToolConfig \<Rightarrow> string \<Rightarrow> bool" where
  "isEnabled cfg q =
     (case cfg q of None \<Rightarrow> True | Some st \<Rightarrow> ts_enabled st \<noteq> Some False)"

text \<open>\<open>error?.name === 'McpError' && error?.code === -32601\<close>.\<close>

definition isMethodNotFound :: "McpError \<Rightarrow> bool" where
  "isMethodNotFound e = (err_name e = ''McpError'' \<and> err_code e = Some (- 32601))"

text \<open>A \<open>console.error\<close> of the aggregation loop: the kind, the backend, the message.\<close>

datatype LogEntry = ErrorFetching string string string

definition logUnless :: "string \<Rightarrow> ConnectedClient \<Rightarrow> McpError \<Rightarrow> LogEntry list" where
  "logUnless kind c e =
     (if isMethodNotFound e then [] else [ErrorFetching kind (cc_name c) (err_message e)])"

definition addTool ::
  "ToolConfig \<Rightarrow> ConnectedClient \<Rightarrow> (string \<times> ToolEntry) list \<Rightarrow> Tool \<Rightarrow>
     (string \<times> ToolEntry) list" where
  "addTool cfg c m t =
     (let qn = qualifiedName (cc_name c) (tool_name t)
      in if isEnabled cfg qn then map_set qn \<lparr>te_client = c, te_toolInfo = t\<rparr> m else m)"

text \<open>The three \<open>try\<close> blocks of the loop body, each on the state and the log so far.\<close>

definition discoverTools ::
  "Env \<Rightarrow> ConnectedClient \<Rightarrow> ProxyState \<times> LogEntry list \<Rightarrow> ProxyState \<times> LogEntry list" where
  "discoverTools env c sl =
     (case env_toolsList env c of
        Inr tools \<Rightarrow>
          ((fst sl)\<lparr>toolToClientMap :=
              foldl (addTool (currentToolConfig (fst sl)) c) (toolToClientMap (fst sl)) tools\<rparr>,
           snd sl)
      | Inl e \<Rightarrow> (fst sl, snd sl @ logUnless ''tools'' c e))"

definition discoverResources ::
  "Env \<Rightarrow> ConnectedClient \<Rightarrow> ProxyState \<times> LogEntry list \<Rightarrow> ProxyState \<times> LogEntry list" where
  "discoverResources env c sl =
     (case env_resourcesList env c of
        Inr uris \<Rightarrow>
          ((fst sl)\<lparr>resourceToClientMap :=
              foldl (\<lambda>m uri. map_set uri c m) (resourceToClientMap (fst sl)) uris\<rparr>,
           snd sl)
      | Inl e \<Rightarrow> (fst sl, snd sl @ logUnless ''resources'' c e))"

definition discoverPrompts ::
  "Env \<Rightarrow> ConnectedClient \<Rightarrow> ProxyState \<times> LogEntry list \<Rightarrow> ProxyState \<times> LogEntry list" where
  "discoverPrompts env c sl =
     (case env_promptsList env c of
        Inr names \<Rightarrow>
          ((fst sl)\<lparr>promptToClientMap :=
              foldl (\<lambda>m p. map_set p c m) (promptToClientMap (fst sl)) names\<rparr>,
           snd sl)
      | Inl e \<Rightarrow> (fst sl, snd sl @ logUnless ''prompts'' c e))"

definition aggregateClient ::
  "Env \<Rightarrow> ProxyState \<times> LogEntry list \<Rightarrow> ConnectedClient \<Rightarrow> ProxyState \<times> LogEntry list" where
  "aggregateClient env sl c = discoverPrompts env c (discoverResources env c (discoverTools env c sl))"

definition clearMaps :: "ProxyState \<Rightarrow> ProxyState" where
  "clearMaps s = s\<lparr>toolToClientMap := [], resourceToClientMap := [], promptToClientMap := []\<rparr>"

text \<open>Lines 150 to 183: the three \<open>clear()\<close> calls and the loop over the connected clients.\<close>

definition aggregate :: "Env \<Rightarrow> ProxyState \<Rightarrow> ProxyState \<times> LogEntry list" where
  "aggregate env s = foldl (aggregateClient env) (clearMaps s, []) (currentConnectedClients s)"


subsection \<open>ProxyService.ts: reconciliation\<close>

text \<open>\<open>!(serverConf.active === false || String(serverConf.active).toLowerCase() === 'false')\<close>.\<close>

definition isActive :: "TransportConfig \<Rightarrow> bool" where
  "isActive conf =
     (\<not> (tc_active conf = ActiveBool False
         \<or> toLowerCase (activeToString (tc_active conf)) = ''false''))"

definition activeServersConfig :: "Config \<Rightarrow> Config" where
  "activeServersConfig cfg = filter (\<lambda>(k, conf). isActive conf) cfg"

text \<open>
  What a reconciliation does besides changing the state: the clients whose \<open>cleanup\<close> it
  invoked, the connection events, the errors logged by the aggregation, and the allocation
  counter afterwards.
\<close>

record UpdateEffects =
  fx_cleanedUp :: "ConnectedClient list"
  fx_connEvents :: "ConnEvent list"
  fx_log :: "LogEntry list"
  fx_nextId :: nat

text \<open>
  The state after line 148: the new tool configuration is stored, removed clients are
  cleaned up, added keys are connected, and \<open>currentConnectedClients\<close> is the kept clients
  followed by the new ones. \<open>mcpServers\<close> is given as its entries in the enumeration order
  of the object; \<open>configToAdd\<close> receives the active entries whose key is not connected yet,
  in that order.
\<close>

definition clientsToRemove :: "Config \<Rightarrow> ProxyState \<Rightarrow> ConnectedClient list" where
  "clientsToRemove cfg s =
     filter (\<lambda>c. cc_name c \<notin> set (map fst (activeServersConfig cfg))) (currentConnectedClients s)"

definition clientsToKeep :: "Config \<Rightarrow> ProxyState \<Rightarrow> ConnectedClient list" where
  "clientsToKeep cfg s =
     filter (\<lambda>c. cc_name c \<in> set (map fst (activeServersConfig cfg))) (currentConnectedClients s)"

definition configToAdd :: "Config \<Rightarrow> ProxyState \<Rightarrow> Config" where
  "configToAdd cfg s =
     filter (\<lambda>(k, conf). k \<notin> set (map cc_name (currentConnectedClients s)))
       (activeServersConfig cfg)"

text \<open>
  Lines 109 to 148, with both configurations passed by the caller (when one is omitted the
  code loads it through ConfigService.ts). \<open>createMcpClients\<close> is called only when there
  is a key to add.
\<close>

definition reconnect ::
  "Env \<Rightarrow> nat \<Rightarrow> Config \<Rightarrow> ToolConfig \<Rightarrow> ProxyState \<Rightarrow> ProxyState \<times> ConnEvent list \<times> nat" where
  "reconnect env nid cfg toolCfg s =
     (case (if configToAdd cfg s \<noteq> [] then createMcpClients env nid (configToAdd cfg s)
            else ([], [], nid)) of
        (newly, evs, nid') \<Rightarrow>
          (s\<lparr>currentToolConfig := toolCfg,
             currentConnectedClients := clientsToKeep cfg s @ newly\<rparr>, evs, nid'))"

text \<open>The whole method: lines 109 to 148, then the aggregation of lines 150 to 183.\<close>

definition updateBackendConnections ::
  "Env \<Rightarrow> nat \<Rightarrow> Config \<Rightarrow> ToolConfig \<Rightarrow> ProxyState \<Rightarrow> ProxyState \<times> UpdateEffects" where
  "updateBackendConnections env nid cfg toolCfg s =
     (case reconnect env nid cfg toolCfg s of
        (s1, evs, nid') \<Rightarrow>
          (case aggregate env s1 of
             (s2, lg) \<Rightarrow>
               (s2, \<lparr>fx_cleanedUp = clientsToRemove cfg s, fx_connEvents = evs,
                     fx_log = lg, fx_nextId = nid'\<rparr>)))"


subsection \<open>ProxyService.ts: request handlers\<close>

text \<open>\<open>toolOverrides[key]?.exposedName || key\<close>.\<close>

definition exposedNameOf :: "ToolConfig \<Rightarrow> string \<Rightarrow> string" where
  "exposedNameOf cfg key =
     js_or (case cfg key of None \<Rightarrow> None | Some st \<Rightarrow> ts_exposedName st) key"

record ListedTool =
  lt_name :: string
  lt_description :: "string option"
  lt_inputSchema :: string

definition listedTool :: "ToolConfig \<Rightarrow> string \<times> ToolEntry \<Rightarrow> ListedTool" where
  "listedTool cfg ke =
     \<lparr>lt_name = exposedNameOf cfg (fst ke),
      lt_description =
        js_or_opt (case cfg (fst ke) of None \<Rightarrow> None | Some st \<Rightarrow> ts_exposedDescription st)
          (tool_description (te_toolInfo (snd ke))),
      lt_inputSchema = tool_inputSchema (te_toolInfo (snd ke))\<rparr>"

definition handleListTools :: "ProxyState \<Rightarrow> ListedTool list" where
  "handleListTools s = map (listedTool (currentToolConfig s)) (toolToClientMap s)"

text \<open>
  A \<open>tools/call\<close> request: the name and the optional arguments object (a list of
  properties). The request the proxy sends to a backend: the client it is sent on, the
  method, the name and the arguments. The \<open>_meta\<close> field is copied from the request
  unchanged and is left out.
\<close>

record CallToolRequest =
  rq_name :: string
  rq_arguments :: "(string \<times> string) list option"

record BackendRequest =
  br_client :: ConnectedClient
  br_method :: string
  br_name :: string
  br_arguments :: "(string \<times> string) list"

datatype RouterError = UnknownTool string | UnknownPrompt string | UnknownResource string

text \<open>The \<open>for\<close> loop with \<open>break\<close>: the first entry whose exposed name is the requested one.\<close>

fun findExposed ::
  "ToolConfig \<Rightarrow> string \<Rightarrow> (string \<times> ToolEntry) list \<Rightarrow> (string \<times> ToolEntry) option" where
  "findExposed cfg requested [] = None"
| "findExposed cfg requested ((key, entry) # m) =
     (if exposedNameOf cfg key = requested then Some (key, entry)
      else findExposed cfg requested m)"

definition handleCallTool :: "ProxyState \<Rightarrow> CallToolRequest \<Rightarrow> RouterError + BackendRequest" where
  "handleCallTool s request =
     (case findExposed (currentToolConfig s) (rq_name request) (toolToClientMap s) of
        None \<Rightarrow> Inl (UnknownTool (rq_name request))
      | Some (key, entry) \<Rightarrow>
          if key = [] then Inl (UnknownTool (rq_name request))
          else Inr \<lparr>br_client = te_client entry, br_method = ''tools/call'',
                    br_name = tool_name (te_toolInfo entry),
                    br_arguments = (case rq_arguments request of None \<Rightarrow> [] | Some a \<Rightarrow> a)\<rparr>)"

record ProxyStateTool =
  ps_name :: string
  ps_serverName :: string
  ps_description :: "string option"

definition getCurrentProxyState :: "ProxyState \<Rightarrow> ProxyStateTool list" where
  "getCurrentProxyState s =
     map (\<lambda>(k, e). \<lparr>ps_name = tool_name (te_toolInfo e),
                    ps_serverName = js_or (Some (cc_name (te_client e))) ''Unknown'',
                    ps_description = tool_description (te_toolInfo e)\<rparr>)
       (toolToClientMap s)"

subsection \<open>The loop body, map by map\<close>

text \<open>
  What one client contributes to each routing map and to the log. The loop body touches the
  three maps independently, so the aggregation is three folds (\<open>aggregate_eq\<close> below).
\<close>

definition toolsOf ::
  "Env \<Rightarrow> ToolConfig \<Rightarrow> (string \<times> ToolEntry) list \<Rightarrow> ConnectedClient \<Rightarrow> (string \<times> ToolEntry) list" where
  "toolsOf env cfg m c =
     (case env_toolsList env c of Inr tools \<Rightarrow> foldl (addTool cfg c) m tools | Inl e \<Rightarrow> m)"

definition resourcesOf ::
  "Env \<Rightarrow> (string \<times> ConnectedClient) list \<Rightarrow> ConnectedClient \<Rightarrow> (string \<times> ConnectedClient) list" where
  "resourcesOf env m c =
     (case env_resourcesList env c of Inr uris \<Rightarrow> foldl (\<lambda>m uri. map_set uri c m) m uris | Inl e \<Rightarrow> m)"

definition promptsOf ::
  "Env \<Rightarrow> (string \<times> ConnectedClient) list \<Rightarrow> ConnectedClient \<Rightarrow> (string \<times> ConnectedClient) list" where
  "promptsOf env m c =
     (case env_promptsList env c of Inr names \<Rightarrow> foldl (\<lambda>m p. map_set p c m) m names | Inl e \<Rightarrow> m)"

definition logOf :: "Env \<Rightarrow> ConnectedClient \<Rightarrow> LogEntry list" where
  "logOf env c =
     (case env_toolsList env c of Inr x \<Rightarrow> [] | Inl e \<Rightarrow> logUnless ''tools'' c e)
     @ (case env_resourcesList env c of Inr x \<Rightarrow> [] | Inl e \<Rightarrow> logUnless ''resources'' c e)
     @ (case env_promptsList env c of Inr x \<Rightarrow> [] | Inl e \<Rightarrow> logUnless ''prompts'' c e)"

subsection \<open>ProxyService.ts: prompt and resource handlers\<close>

text \<open>
  \<open>_handleGetPrompt\<close> and \<open>_handleReadResource\<close> look the key up in their map and forward
  the request on the owning client; \<open>_handleListPrompts\<close> and \<open>_handleListResources\<close>
  list the keys of the maps with the owning backend's name in brackets.
\<close>

record ForwardedRequest =
  fw_client :: ConnectedClient
  fw_method :: string
  fw_key :: string

definition handleGetPrompt :: "ProxyState \<Rightarrow> string \<Rightarrow> RouterError + ForwardedRequest" where
  "handleGetPrompt s nm =
     (case map_of (promptToClientMap s) nm of
        None \<Rightarrow> Inl (UnknownPrompt nm)
      | Some c \<Rightarrow> Inr \<lparr>fw_client = c, fw_method = ''prompts/get'', fw_key = nm\<rparr>)"


definition handleListPrompts :: "ProxyState \<Rightarrow> (string \<times> string) list" where
  "handleListPrompts s =
     map (\<lambda>(nm, c). (nm, ''['' @ cc_name c @ ''] Prompt'')) (promptToClientMap s)"

definition handleListResources :: "ProxyState \<Rightarrow> (string \<times> string) list" where
  "handleListResources s =
     map (\<lambda>(uri, c). (uri, ''['' @ cc_name c @ ''] Resource'')) (resourceToClientMap s)"

subsection \<open>Comparing states of one reconciliation\<close>


section \<open>Session registry of the event-stream transport (services/HttpService.ts)\<close>

text \<open>
  \<open>sseTransports\<close> maps a session id to its \<open>SSEServerTransport\<close>, modelled by the
  identity of the transport object. What a handler does besides changing the registry:
  closing a transport, handing a posted message to a transport, answering with an HTTP
  status. A step that can throw (\<open>_mcpServer.connect\<close>, \<open>handlePostMessage\<close>) has its
  outcome as an input: \<open>Completed\<close>, or \<open>Threw headersSent\<close>.
\<close>

record HttpState =
  sseTransports :: "string \<rightharpoonup> nat"

datatype HttpEvent = TransportClosed nat | PostMessageHandled nat | Responded nat

datatype Outcome = Completed | Threw bool

text \<open>
  Lines 105 to 112 of \<open>_handleSse\<close>: a claimed session id that is registered has its
  transport removed from the registry and closed.
\<close>

definition closeExisting :: "HttpState \<Rightarrow> string option \<Rightarrow> HttpState \<times> HttpEvent list" where
  "closeExisting st sessionIdFromClientQuery =
     (case sessionIdFromClientQuery of
        None \<Rightarrow> (st, [])
      | Some sid \<Rightarrow>
          if sid = [] then (st, [])
          else (case sseTransports st sid of
                  None \<Rightarrow> (st, [])
                | Some existing \<Rightarrow>
                    (st\<lparr>sseTransports := (sseTransports st)(sid := None)\<rparr>,
                     [TransportClosed existing])))"

text \<open>
  \<open>_handleSse\<close>. \<open>authorized\<close> is the result of the authentication block (lines 70 to 98);
  \<open>clientTransport\<close> is the transport object the constructor returns and
  \<open>actualTransportSessionId\<close> the session id the SDK gave it (the constructor itself is
  taken not to throw). An empty id throws before the registration; a failing \<open>connect\<close> runs the \<open>catch\<close> block, which unregisters and
  closes the new transport.
\<close>

definition handleSse ::
  "HttpState \<Rightarrow> bool \<Rightarrow> string option \<Rightarrow> nat \<Rightarrow> string \<Rightarrow> Outcome \<Rightarrow>
     HttpState \<times> HttpEvent list" where
  "handleSse st authorized sessionIdFromClientQuery clientTransport actualTransportSessionId
       connected =
     (if \<not> authorized then (st, [Responded 401])
      else
        (case closeExisting st sessionIdFromClientQuery of
           (st1, evs) \<Rightarrow>
             if actualTransportSessionId = []
             then (st1, evs @ [TransportClosed clientTransport, Responded 500])
             else
               (case connected of
                  Completed \<Rightarrow>
                    (st1\<lparr>sseTransports :=
                        (sseTransports st1)(actualTransportSessionId \<mapsto> clientTransport)\<rparr>, evs)
                | Threw headersSent \<Rightarrow>
                    (st1\<lparr>sseTransports := (sseTransports st1)(actualTransportSessionId := None)\<rparr>,
                     evs @ [TransportClosed clientTransport]
                         @ (if headersSent then [] else [Responded 500])))))"

text \<open>
  The \<open>onclose\<close> and \<open>onerror\<close> handlers installed on a transport registered under
  \<open>currentSessionId\<close>: both delete that id when it is registered.
\<close>

definition sseOnClose :: "HttpState \<Rightarrow> string \<Rightarrow> HttpState" where
  "sseOnClose st currentSessionId =
     (if sseTransports st currentSessionId \<noteq> None
      then st\<lparr>sseTransports := (sseTransports st)(currentSessionId := None)\<rparr> else st)"

text \<open>
  \<open>_handleMessage\<close>: \<open>req.params.sessionId || req.query.sessionId\<close>, then the lookup.
\<close>

definition requestSessionId :: "string option \<Rightarrow> string option \<Rightarrow> string option" where
  "requestSessionId paramsSessionId querySessionId =
     (case paramsSessionId of
        None \<Rightarrow> querySessionId
      | Some s \<Rightarrow> if s = [] then querySessionId else Some s)"

definition handleMessage ::
  "HttpState \<Rightarrow> string option \<Rightarrow> string option \<Rightarrow> Outcome \<Rightarrow> HttpEvent list" where
  "handleMessage st paramsSessionId querySessionId handled =
     (case requestSessionId paramsSessionId querySessionId of
        None \<Rightarrow> [Responded 400]
      | Some sessionId \<Rightarrow>
          if sessionId = [] then [Responded 400]
          else (case sseTransports st sessionId of
                  None \<Rightarrow> [Responded 404]
                | Some transport \<Rightarrow>
                    PostMessageHandled transport
                    # (case handled of Threw False \<Rightarrow> [Responded 500] | _ \<Rightarrow> [])))"

section \<open>Example inputs\<close>

text \<open>
  Backend descriptors, tools and errors, and an outside world with three backends: \<open>a\<close>
  has the tools \<open>ping\<close> and \<open>echo\<close> and one resource but no prompts, \<open>b\<close> has the
  tool \<open>pong\<close> and one prompt and its resource listing times out, \<open>bad\<close> never
  completes a handshake, and a backend configured under the empty key has the tool
  \<open>ping\<close>.
\<close>

definition stdioConf :: TransportConfig where
  "stdioConf = \<lparr>tc_active = ActiveUndefined, tc_kind = Stdio ''node''\<rparr>"

definition inactiveConf :: TransportConfig where
  "inactiveConf = \<lparr>tc_active = ActiveString ''False'', tc_kind = Stdio ''node''\<rparr>"

definition pingTool :: Tool where
  "pingTool = \<lparr>tool_name = ''ping'', tool_description = Some ''Ping'', tool_inputSchema = ''{}''\<rparr>"

definition echoTool :: Tool where
  "echoTool = \<lparr>tool_name = ''echo'', tool_description = Some ''Echo'', tool_inputSchema = ''{}''\<rparr>"

definition pongTool :: Tool where
  "pongTool = \<lparr>tool_name = ''pong'', tool_description = None, tool_inputSchema = ''{}''\<rparr>"

definition methodNotFound :: McpError where
  "methodNotFound = \<lparr>err_name = ''McpError'', err_code = Some (- 32601),
     err_message = ''Method not found''\<rparr>"

definition timeoutError :: McpError where
  "timeoutError = \<lparr>err_name = ''McpError'', err_code = Some (- 32001),
     err_message = ''Request timed out''\<rparr>"

definition exEnv :: Env where
  "exEnv = \<lparr>env_newTransport = (\<lambda>conf. True), env_connect = (\<lambda>nm k. nm \<noteq> ''bad''),
     env_toolsList = (\<lambda>c. if cc_name c = ''a'' then Inr [pingTool, echoTool]
                          else if cc_name c = ''b'' then Inr [pongTool]
                          else if cc_name c = [] then Inr [pingTool]
                          else Inl methodNotFound),
     env_resourcesList = (\<lambda>c. if cc_name c = ''a'' then Inr [''file:///x'']
                              else Inl timeoutError),
     env_promptsList = (\<lambda>c. if cc_name c = ''b'' then Inr [''greet'']
                            else Inl methodNotFound)\<rparr>"

definition exConfig :: Config where
  "exConfig = [(''a'', stdioConf), (''off'', inactiveConf), (''bad'', stdioConf), (''b'', stdioConf)]"

definition oldState :: ProxyState where
  "oldState = fst (updateBackendConnections exEnv 0 [(''a'', stdioConf), (''old'', stdioConf)]
     Map.empty initialState)"

text \<open>Connected clients of the example backends.\<close>

definition clientA :: ConnectedClient where
  "clientA = \<lparr>cc_client = 0, cc_name = ''a''\<rparr>"

definition clientB :: ConnectedClient where
  "clientB = \<lparr>cc_client = 5, cc_name = ''b''\<rparr>"

definition clientC :: ConnectedClient where
  "clientC = \<lparr>cc_client = 6, cc_name = ''c''\<rparr>"

text \<open>
  Tool configurations for these backends, and the state of the service after reconciling
  \<open>oldState\<close> with each. In \<open>sharedNameConfig\<close> two tools are given the exposed name
  \<open>shared\<close> and one an empty exposed name; in \<open>overrideConfig\<close> a tool is disabled and
  another tool is exposed under the disabled tool's qualified name.
\<close>

definition sharedNameConfig :: ToolConfig where
  "sharedNameConfig =
     [''a--ping'' \<mapsto> \<lparr>ts_enabled = None, ts_exposedName = Some [],
                        ts_exposedDescription = None\<rparr>,
      ''a--echo'' \<mapsto> \<lparr>ts_enabled = None, ts_exposedName = Some ''shared'',
                        ts_exposedDescription = Some []\<rparr>,
      ''b--pong'' \<mapsto> \<lparr>ts_enabled = Some True, ts_exposedName = Some ''shared'',
                        ts_exposedDescription = Some ''Pong of b''\<rparr>]"

definition sharedNameState :: ProxyState where
  "sharedNameState = fst (updateBackendConnections exEnv 2 exConfig sharedNameConfig oldState)"

definition overrideConfig :: ToolConfig where
  "overrideConfig =
     [''a--echo'' \<mapsto> \<lparr>ts_enabled = Some False, ts_exposedName = None,
                        ts_exposedDescription = None\<rparr>,
      ''b--pong'' \<mapsto> \<lparr>ts_enabled = None, ts_exposedName = Some ''a--echo'',
                        ts_exposedDescription = Some ''Pong of b''\<rparr>]"

definition overrideState :: ProxyState where
  "overrideState = fst (updateBackendConnections exEnv 2 exConfig overrideConfig oldState)"

text \<open>A registry with two sessions.\<close>

definition httpExample :: HttpState where
  "httpExample = \<lparr>sseTransports = [''abc'' \<mapsto> 1, ''def'' \<mapsto> 2]\<rparr>"

section \<open>Properties\<close>

declare connectLoop.simps [simp del]

subsection \<open>Maps and the aggregation fold\<close>

lemma aggregateClient_eq:
  "aggregateClient env (s, lg) c =
     (s\<lparr>toolToClientMap := toolsOf env (currentToolConfig s) (toolToClientMap s) c,
        resourceToClientMap := resourcesOf env (resourceToClientMap s) c,
        promptToClientMap := promptsOf env (promptToClientMap s) c\<rparr>,
      lg @ logOf env c)"
  by (simp add: aggregateClient_def discoverTools_def discoverResources_def discoverPrompts_def
      toolsOf_def resourcesOf_def promptsOf_def logOf_def split: sum.splits)

lemma foldl_aggregateClient:
  "foldl (aggregateClient env) (s, lg) cs =
     (s\<lparr>toolToClientMap := foldl (toolsOf env (currentToolConfig s)) (toolToClientMap s) cs,
        resourceToClientMap := foldl (resourcesOf env) (resourceToClientMap s) cs,
        promptToClientMap := foldl (promptsOf env) (promptToClientMap s) cs\<rparr>,
      lg @ concat (map (logOf env) cs))"
proof (induction cs arbitrary: s lg)
  case Nil
  show ?case by simp
next
  case (Cons c cs)
  show ?case by (simp add: aggregateClient_eq Cons.IH)
qed

lemma aggregate_eq:
  "aggregate env s =
     (s\<lparr>toolToClientMap := foldl (toolsOf env (currentToolConfig s)) [] (currentConnectedClients s),
        resourceToClientMap := foldl (resourcesOf env) [] (currentConnectedClients s),
        promptToClientMap := foldl (promptsOf env) [] (currentConnectedClients s)\<rparr>,
      concat (map (logOf env) (currentConnectedClients s)))"
  by (simp add: aggregate_def foldl_aggregateClient clearMaps_def)

lemma set_map_set: "set (map_set k v m) \<subseteq> insert (k, v) (set m)"
  by (induction k v m rule: map_set.induct) auto


lemma map_fst_map_set_mem: "k \<in> fst ` set m \<Longrightarrow> map fst (map_set k v m) = map fst m"
  by (induction k v m rule: map_set.induct) auto

lemma map_set_new: "k \<notin> fst ` set m \<Longrightarrow> map_set k v m = m @ [(k, v)]"
  by (induction k v m rule: map_set.induct) auto

lemma distinct_map_set: "distinct (map fst m) \<Longrightarrow> distinct (map fst (map_set k v m))"
proof (cases "k \<in> fst ` set m")
  case True
  assume "distinct (map fst m)"
  then show ?thesis using True by (simp add: map_fst_map_set_mem)
next
  case False
  assume "distinct (map fst m)"
  then show ?thesis using False by (simp add: map_set_new)
qed

subsection \<open>Qualified names\<close>

lemma qualifiedName_same_tool: "qualifiedName n1 t = qualifiedName n2 t \<Longrightarrow> n1 = n2"
  by (simp add: qualifiedName_def)

lemma qualifiedName_same_backend: "qualifiedName n t1 = qualifiedName n t2 \<Longrightarrow> t1 = t2"
  by (simp add: qualifiedName_def)

lemma qualifiedName_nonempty: "qualifiedName n t \<noteq> []"
  by (simp add: qualifiedName_def)

lemma takeWhile_qualifiedName:
  "CHR ''-'' \<notin> set n \<Longrightarrow> takeWhile (\<lambda>c. c \<noteq> CHR ''-'') (qualifiedName n t) = n"
  by (induction n) (auto simp: qualifiedName_def)

lemma qualifiedName_inj_hyphen_free:
  assumes "CHR ''-'' \<notin> set n1" and "CHR ''-'' \<notin> set n2"
    and "qualifiedName n1 t1 = qualifiedName n2 t2"
  shows "n1 = n2 \<and> t1 = t2"
proof -
  have "takeWhile (\<lambda>c. c \<noteq> CHR ''-'') (qualifiedName n1 t1) = n1"
    using assms(1) by (rule takeWhile_qualifiedName)
  moreover have "takeWhile (\<lambda>c. c \<noteq> CHR ''-'') (qualifiedName n2 t2) = n2"
    using assms(2) by (rule takeWhile_qualifiedName)
  ultimately have "n1 = n2" using assms(3) by simp
  then show ?thesis using assms(3) qualifiedName_same_backend by blast
qed

text \<open>
  Claim C8, as the code has it. The qualified name \<open>backend--tool\<close> is a plain
  concatenation: two backends never share the qualified name of a tool with the same
  local name, one backend's tools with different local names get different qualified
  names, and when neither backend name contains a hyphen the qualified name determines
  the pair. Nothing in the code escapes the separator, so other pairs can collide.
\<close>

theorem qualifiedName_unique:
  "(n1 \<noteq> n2 \<longrightarrow> qualifiedName n1 t \<noteq> qualifiedName n2 t)
   \<and> (t1 \<noteq> t2 \<longrightarrow> qualifiedName n t1 \<noteq> qualifiedName n t2)
   \<and> (CHR ''-'' \<notin> set m1 \<and> CHR ''-'' \<notin> set m2 \<and> (m1, u1) \<noteq> (m2, u2)
        \<longrightarrow> qualifiedName m1 u1 \<noteq> qualifiedName m2 u2)"
  using qualifiedName_same_tool qualifiedName_same_backend qualifiedName_inj_hyphen_free
  by blast

theorem qualifiedName_unique_witness:
  "''alpha'' \<noteq> ''beta'' \<and> qualifiedName ''alpha'' ''ping'' \<noteq> qualifiedName ''beta'' ''ping''
   \<and> ''ping'' \<noteq> ''pong'' \<and> qualifiedName ''alpha'' ''ping'' \<noteq> qualifiedName ''alpha'' ''pong''
   \<and> CHR ''-'' \<notin> set ''alpha'' \<and> CHR ''-'' \<notin> set ''beta''
   \<and> (''alpha'', ''get-x'') \<noteq> (''beta'', ''x'')
   \<and> qualifiedName ''alpha'' ''get-x'' \<noteq> qualifiedName ''beta'' ''x''"
proof -
  have h1: "''alpha'' \<noteq> ''beta''" by simp
  have h2: "''ping'' \<noteq> ''pong''" by simp
  have h3: "CHR ''-'' \<notin> set ''alpha'' \<and> CHR ''-'' \<notin> set ''beta''
      \<and> (''alpha'', ''get-x'') \<noteq> (''beta'', ''x'')" by simp
  show ?thesis
    using h1 h2 h3
      qualifiedName_unique [of "''alpha''" "''beta''" "''ping''" "''ping''" "''pong''"
        "''alpha''" "''alpha''" "''beta''" "''get-x''" "''x''"]
    by blast
qed

text \<open>
  Claim C8 as stated fails: the backend \<open>a\<close> with the tool \<open>b--c\<close> and the backend
  \<open>a--b\<close> with the tool \<open>c\<close> are distinct pairs with the same qualified name.
\<close>

theorem qualifiedName_collision:
  "(''a'', ''b--c'') \<noteq> (''a--b'', ''c'')
   \<and> qualifiedName ''a'' ''b--c'' = qualifiedName ''a--b'' ''c''"
  by (simp add: qualifiedName_def)

subsection \<open>Connecting backends\<close>

lemma connectLoop_exhausted:
  assumes "createClient env nm conf" and "\<forall>k. \<not> env_connect env nm k"
  shows "connectLoop env nm conf 0 nid =
     (None,
      [ConnectAttempt nm nid, ClientClosed nm nid, Slept 2500,
       ConnectAttempt nm (nid + 1), ClientClosed nm (nid + 1), Slept 2500,
       ConnectAttempt nm (nid + 2)],
      nid + 3)"
proof -
  have third: "connectLoop env nm conf 2 (nid + 2) = (None, [ConnectAttempt nm (nid + 2)], nid + 3)"
    using assms by (subst connectLoop.simps) (simp add: retries_def)
  have second: "connectLoop env nm conf 1 (nid + 1) =
      (None, [ConnectAttempt nm (nid + 1), ClientClosed nm (nid + 1), Slept 2500,
              ConnectAttempt nm (nid + 2)], nid + 3)"
    using assms third by (subst connectLoop.simps) (simp add: retries_def waitFor_def numeral_2_eq_2)
  show ?thesis
    using assms second by (subst connectLoop.simps) (simp add: retries_def waitFor_def)
qed

lemma createMcpClients_append:
  "createMcpClients env nid (xs @ ys) =
     (case createMcpClients env nid xs of
        (cs, evs, n1) \<Rightarrow>
          (case createMcpClients env n1 ys of
             (cs', evs', n2) \<Rightarrow> (cs @ cs', evs @ evs', n2)))"
  by (induction xs arbitrary: nid) (auto split: prod.splits)

lemma connectLoop_name_nid:
  "map_option cc_name (fst (connectLoop env nm conf k nid)) =
   map_option cc_name (fst (connectLoop env nm conf k nid'))"
proof (induction env nm conf k nid arbitrary: nid' rule: connectLoop.induct)
  case (1 env nm conf count nid)
  show ?case
    using "1.IH"[of "Suc nid'"]
    by (subst connectLoop.simps, subst (2) connectLoop.simps) (auto split: prod.splits)
qed

lemma connectLoop_Some_name:
  "fst (connectLoop env nm conf k nid) = Some c \<Longrightarrow> cc_name c = nm"
proof (induction env nm conf k nid rule: connectLoop.induct)
  case (1 env nm conf count nid)
  from "1.prems" show ?case
    using "1.IH"
    by (subst (asm) connectLoop.simps) (auto split: prod.splits if_splits)
qed

lemma createMcpClients_names_nid:
  "map cc_name (fst (createMcpClients env nid cfg)) = map cc_name (fst (createMcpClients env nid' cfg))"
proof (induction cfg arbitrary: nid nid')
  case Nil
  show ?case by simp
next
  case (Cons a cfg)
  obtain nm conf where a: "a = (nm, conf)" by (cases a)
  obtain r evs n1 where l1: "connectLoop env nm conf 0 nid = (r, evs, n1)" by (cases "connectLoop env nm conf 0 nid")
  obtain r' evs' n1' where l2: "connectLoop env nm conf 0 nid' = (r', evs', n1')" by (cases "connectLoop env nm conf 0 nid'")
  have rr: "map_option cc_name r = map_option cc_name r'"
    using connectLoop_name_nid[of env nm conf 0 nid nid'] l1 l2 by simp
  show ?case
    using rr Cons.IH[of n1 n1'] l1 l2 a
    by (auto split: prod.splits option.splits)
qed

text \<open>
  Claim C4. A backend for which a transport can be built and whose handshake fails at every
  attempt gets exactly three connection attempts; between two consecutive attempts the
  failed client is closed and the loop sleeps 2500 ms; it contributes no connected client.
  The backends before and after it in the same pass are connected as they would be
  without it: the returned list has the same names as for the configuration without the
  failing entry.
\<close>

theorem retry_policy:
  assumes "createClient env nm conf" and "\<forall>k. \<not> env_connect env nm k"
  shows "createMcpClients env nid (before @ (nm, conf) # after) =
     (case createMcpClients env nid before of
        (cs, evs, n1) \<Rightarrow>
          (case createMcpClients env (n1 + 3) after of
             (cs', evs', n2) \<Rightarrow>
               (cs @ cs',
                evs @ [ConnectAttempt nm n1, ClientClosed nm n1, Slept 2500,
                       ConnectAttempt nm (n1 + 1), ClientClosed nm (n1 + 1), Slept 2500,
                       ConnectAttempt nm (n1 + 2)] @ evs',
                n2)))
   \<and> map cc_name (fst (createMcpClients env nid (before @ (nm, conf) # after))) =
     map cc_name (fst (createMcpClients env nid (before @ after)))"
proof -
  obtain cs evs n1 where b: "createMcpClients env nid before = (cs, evs, n1)"
    by (cases "createMcpClients env nid before")
  obtain cs' evs' n2 where a: "createMcpClients env (n1 + 3) after = (cs', evs', n2)"
    by (cases "createMcpClients env (n1 + 3) after")
  have one: "createMcpClients env n1 ((nm, conf) # after) =
      (cs', [ConnectAttempt nm n1, ClientClosed nm n1, Slept 2500,
             ConnectAttempt nm (n1 + 1), ClientClosed nm (n1 + 1), Slept 2500,
             ConnectAttempt nm (n1 + 2)] @ evs', n2)"
    using connectLoop_exhausted[OF assms, of n1] a by simp
  have first: "createMcpClients env nid (before @ (nm, conf) # after) =
      (cs @ cs', evs @ [ConnectAttempt nm n1, ClientClosed nm n1, Slept 2500,
             ConnectAttempt nm (n1 + 1), ClientClosed nm (n1 + 1), Slept 2500,
             ConnectAttempt nm (n1 + 2)] @ evs', n2)"
    using b one by (simp add: createMcpClients_append)
  have "map cc_name (fst (createMcpClients env n1 after)) = map cc_name cs'"
    using createMcpClients_names_nid[of env n1 after "n1 + 3"] a by simp
  then have second: "map cc_name (fst (createMcpClients env nid (before @ after))) = map cc_name (cs @ cs')"
    using b by (auto simp: createMcpClients_append split: prod.splits)
  show ?thesis using first second a b by simp
qed

text \<open>
  An instance: \<open>good\<close> and \<open>also\<close> connect at once, \<open>bad\<close> between them never does.
\<close>

theorem retry_policy_witness:
  "createClient exEnv ''bad'' stdioConf
   \<and> (\<forall>k. \<not> env_connect exEnv ''bad'' k)
   \<and> createMcpClients exEnv 0 ([(''good'', stdioConf)] @ (''bad'', stdioConf) # [(''also'', stdioConf)]) =
       ([\<lparr>cc_client = 0, cc_name = ''good''\<rparr>, \<lparr>cc_client = 4, cc_name = ''also''\<rparr>],
        [ConnectAttempt ''good'' 0, Connected ''good'' 0,
         ConnectAttempt ''bad'' 1, ClientClosed ''bad'' 1, Slept 2500,
         ConnectAttempt ''bad'' 2, ClientClosed ''bad'' 2, Slept 2500,
         ConnectAttempt ''bad'' 3,
         ConnectAttempt ''also'' 4, Connected ''also'' 4], 5)"
proof -
  have h1: "createClient exEnv ''bad'' stdioConf"
    by (simp add: createClient_def exEnv_def stdioConf_def)
  have h2: "\<forall>k. \<not> env_connect exEnv ''bad'' k"
    by (simp add: exEnv_def)
  have g1: "createMcpClients exEnv 0 [(''good'', stdioConf)] =
      ([\<lparr>cc_client = 0, cc_name = ''good''\<rparr>], [ConnectAttempt ''good'' 0, Connected ''good'' 0], 1)"
    by (simp add: connectLoop.simps createClient_def exEnv_def stdioConf_def)
  have g2: "createMcpClients exEnv 4 [(''also'', stdioConf)] =
      ([\<lparr>cc_client = 4, cc_name = ''also''\<rparr>], [ConnectAttempt ''also'' 4, Connected ''also'' 4], 5)"
    by (simp add: connectLoop.simps createClient_def exEnv_def stdioConf_def)
  show ?thesis
    using h1 h2 g1 g2
      retry_policy [OF h1 h2, of 0 "[(''good'', stdioConf)]" "[(''also'', stdioConf)]"]
    by simp
qed

lemma createMcpClients_names_subset:
  "c \<in> set (fst (createMcpClients env nid cfg)) \<Longrightarrow> cc_name c \<in> fst ` set cfg"
proof (induction cfg arbitrary: nid)
  case Nil
  then show ?case by simp
next
  case (Cons a cfg)
  obtain nm conf where a: "a = (nm, conf)" by (cases a)
  obtain r evs n1 where l1: "connectLoop env nm conf 0 nid = (r, evs, n1)"
    by (cases "connectLoop env nm conf 0 nid")
  obtain cs evs' n2 where l2: "createMcpClients env n1 cfg = (cs, evs', n2)"
    by (cases "createMcpClients env n1 cfg")
  from Cons.prems a l1 l2 have "c \<in> set (case r of None \<Rightarrow> [] | Some c \<Rightarrow> [c]) \<or> c \<in> set cs"
    by auto
  then show ?case
  proof
    assume "c \<in> set (case r of None \<Rightarrow> [] | Some c \<Rightarrow> [c])"
    then have "r = Some c" by (cases r) auto
    then have "cc_name c = nm" using connectLoop_Some_name[of env nm conf 0 nid c] l1 by simp
    then show ?thesis using a by simp
  next
    assume "c \<in> set cs"
    then have "c \<in> set (fst (createMcpClients env n1 cfg))" using l2 by simp
    then show ?thesis using Cons.IH by auto
  qed
qed

lemma createMcpClients_connected_name:
  assumes "(nm, conf) \<in> set cfg" and "fst (connectLoop env nm conf 0 n) \<noteq> None"
  shows "nm \<in> cc_name ` set (fst (createMcpClients env nid cfg))"
  using assms(1)
proof (induction cfg arbitrary: nid)
  case Nil
  then show ?case by simp
next
  case (Cons a cfg)
  obtain nm' conf' where a: "a = (nm', conf')" by (cases a)
  obtain r evs n1 where l1: "connectLoop env nm' conf' 0 nid = (r, evs, n1)"
    by (cases "connectLoop env nm' conf' 0 nid")
  obtain cs evs' n2 where l2: "createMcpClients env n1 cfg = (cs, evs', n2)"
    by (cases "createMcpClients env n1 cfg")
  show ?case
  proof (cases "(nm, conf) = a")
    case True
    have "map_option cc_name (fst (connectLoop env nm conf 0 nid)) \<noteq> None"
      using connectLoop_name_nid[of env nm conf 0 nid n] assms(2) by simp
    then obtain c where c: "fst (connectLoop env nm conf 0 nid) = Some c" by auto
    then have "cc_name c = nm" by (rule connectLoop_Some_name)
    then show ?thesis using c l1 l2 a True by force
  next
    case False
    then have "(nm, conf) \<in> set cfg" using Cons.prems by simp
    then have "nm \<in> cc_name ` set (fst (createMcpClients env n1 cfg))" by (rule Cons.IH)
    then show ?thesis using a l1 l2 by auto
  qed
qed

lemma createMcpClients_all_fail:
  assumes "\<forall>(nm, conf) \<in> set cfg. fst (connectLoop env nm conf 0 0) = None"
  shows "fst (createMcpClients env nid cfg) = []"
  using assms
proof (induction cfg arbitrary: nid)
  case Nil
  show ?case by simp
next
  case (Cons a cfg)
  obtain nm conf where a: "a = (nm, conf)" by (cases a)
  obtain r evs n1 where l1: "connectLoop env nm conf 0 nid = (r, evs, n1)"
    by (cases "connectLoop env nm conf 0 nid")
  have "fst (connectLoop env nm conf 0 0) = None" using Cons.prems a by simp
  then have "map_option cc_name (fst (connectLoop env nm conf 0 nid)) = None"
    using connectLoop_name_nid[of env nm conf 0 nid 0] by simp
  then have r: "r = None" using l1 by simp
  have "fst (createMcpClients env n1 cfg) = []" using Cons.prems by (intro Cons.IH) simp
  then show ?case using a l1 r by (auto split: prod.splits)
qed

lemma connectLoop_events:
  "e \<in> set (fst (snd (connectLoop env nm conf k nid))) \<Longrightarrow>
     (\<forall>n i. e = ConnectAttempt n i \<longrightarrow> n = nm)
     \<and> (\<forall>n i. e = Connected n i \<longrightarrow>
           fst (connectLoop env nm conf k nid) = Some \<lparr>cc_client = i, cc_name = n\<rparr>)"
proof (induction env nm conf k nid rule: connectLoop.induct)
  case (1 env nm conf count nid)
  from "1.prems" show ?case
    using "1.IH"
    by (subst connectLoop.simps, subst (asm) connectLoop.simps)
       (auto split: prod.splits if_splits)
qed

lemma createMcpClients_events:
  "e \<in> set (fst (snd (createMcpClients env nid cfg))) \<Longrightarrow>
     (\<forall>n i. e = ConnectAttempt n i \<longrightarrow> n \<in> fst ` set cfg)
     \<and> (\<forall>n i. e = Connected n i \<longrightarrow>
           \<lparr>cc_client = i, cc_name = n\<rparr> \<in> set (fst (createMcpClients env nid cfg)))"
proof (induction cfg arbitrary: nid)
  case Nil
  then show ?case by simp
next
  case (Cons a cfg)
  obtain nm conf where a: "a = (nm, conf)" by (cases a)
  obtain r evs n1 where l1: "connectLoop env nm conf 0 nid = (r, evs, n1)"
    by (cases "connectLoop env nm conf 0 nid")
  obtain cs evs' n2 where l2: "createMcpClients env n1 cfg = (cs, evs', n2)"
    by (cases "createMcpClients env n1 cfg")
  from Cons.prems a l1 l2 have "e \<in> set evs \<or> e \<in> set evs'" by auto
  then show ?case
  proof
    assume "e \<in> set evs"
    then have "e \<in> set (fst (snd (connectLoop env nm conf 0 nid)))" using l1 by simp
    from connectLoop_events[OF this] show ?thesis using a l1 l2 by auto
  next
    assume "e \<in> set evs'"
    then have "e \<in> set (fst (snd (createMcpClients env n1 cfg)))" using l2 by simp
    from Cons.IH[OF this] show ?thesis using a l1 l2 by auto
  qed
qed

subsection \<open>Reconciliation\<close>

lemma createMcpClients_if:
  "(if cta \<noteq> [] then createMcpClients env nid cta else ([], [], nid)) = createMcpClients env nid cta"
  by (cases cta) auto

lemma updateBackendConnections_eq:
  "updateBackendConnections env nid cfg toolCfg s =
     (s\<lparr>currentToolConfig := toolCfg,
        currentConnectedClients :=
          clientsToKeep cfg s @ fst (createMcpClients env nid (configToAdd cfg s)),
        toolToClientMap :=
          foldl (toolsOf env toolCfg) []
            (clientsToKeep cfg s @ fst (createMcpClients env nid (configToAdd cfg s))),
        resourceToClientMap :=
          foldl (resourcesOf env) []
            (clientsToKeep cfg s @ fst (createMcpClients env nid (configToAdd cfg s))),
        promptToClientMap :=
          foldl (promptsOf env) []
            (clientsToKeep cfg s @ fst (createMcpClients env nid (configToAdd cfg s)))\<rparr>,
      \<lparr>fx_cleanedUp = clientsToRemove cfg s,
       fx_connEvents = fst (snd (createMcpClients env nid (configToAdd cfg s))),
       fx_log = concat (map (logOf env)
          (clientsToKeep cfg s @ fst (createMcpClients env nid (configToAdd cfg s)))),
       fx_nextId = snd (snd (createMcpClients env nid (configToAdd cfg s)))\<rparr>)"
  by (simp add: updateBackendConnections_def reconnect_def createMcpClients_if aggregate_eq
      split: prod.splits)

lemma connected_names_active:
  assumes "c \<in> set (clientsToKeep cfg s @ fst (createMcpClients env nid (configToAdd cfg s)))"
  shows "cc_name c \<in> fst ` set (activeServersConfig cfg)"
proof -
  from assms have "c \<in> set (clientsToKeep cfg s) \<or> c \<in> set (fst (createMcpClients env nid (configToAdd cfg s)))"
    by simp
  then show ?thesis
  proof
    assume "c \<in> set (clientsToKeep cfg s)"
    then show ?thesis by (simp add: clientsToKeep_def)
  next
    assume "c \<in> set (fst (createMcpClients env nid (configToAdd cfg s)))"
    then have "cc_name c \<in> fst ` set (configToAdd cfg s)" by (rule createMcpClients_names_subset)
    then show ?thesis by (auto simp: configToAdd_def)
  qed
qed

lemma second_pass_keeps_all:
  assumes "currentConnectedClients s1 =
      clientsToKeep cfg s @ fst (createMcpClients env nid (configToAdd cfg s))"
  shows "clientsToKeep cfg s1 = currentConnectedClients s1"
    and "clientsToRemove cfg s1 = []"
proof -
  have all: "\<forall>c \<in> set (currentConnectedClients s1). cc_name c \<in> fst ` set (activeServersConfig cfg)"
    using assms connected_names_active by metis
  show "clientsToKeep cfg s1 = currentConnectedClients s1"
    unfolding clientsToKeep_def using all by (simp add: filter_id_conv)
  show "clientsToRemove cfg s1 = []"
    unfolding clientsToRemove_def using all by (simp add: filter_empty_conv)
qed

lemma second_pass_connects_none:
  assumes "currentConnectedClients s1 =
      clientsToKeep cfg s @ fst (createMcpClients env nid (configToAdd cfg s))"
  shows "fst (createMcpClients env nid' (configToAdd cfg s1)) = []"
proof (rule createMcpClients_all_fail, clarify)
  fix nm conf
  assume mem: "(nm, conf) \<in> set (configToAdd cfg s1)"
  then have act: "(nm, conf) \<in> set (activeServersConfig cfg)"
    and notin: "nm \<notin> cc_name ` set (currentConnectedClients s1)"
    by (auto simp: configToAdd_def)
  show "fst (connectLoop env nm conf 0 0) = None"
  proof (rule ccontr)
    assume succ: "fst (connectLoop env nm conf 0 0) \<noteq> None"
    have "nm \<notin> cc_name ` set (currentConnectedClients s)"
    proof
      assume "nm \<in> cc_name ` set (currentConnectedClients s)"
      then obtain c where c: "c \<in> set (currentConnectedClients s)" "cc_name c = nm" by auto
      have "nm \<in> fst ` set (activeServersConfig cfg)" using act by force
      then have "c \<in> set (clientsToKeep cfg s)" using c by (simp add: clientsToKeep_def)
      then show False using notin assms c(2) by auto
    qed
    then have "(nm, conf) \<in> set (configToAdd cfg s)" using act by (simp add: configToAdd_def)
    then have "nm \<in> cc_name ` set (fst (createMcpClients env nid (configToAdd cfg s)))"
      using succ by (rule createMcpClients_connected_name)
    then show False using notin assms by auto
  qed
qed

text \<open>
  Claim C3. Reconciling twice in a row with the same server and tool configuration, the
  backends answering the second pass as they answered the first, leaves the service state
  (connected clients, the three routing maps, the tool configuration) as the first pass
  left it; the second pass cleans up no client and connects none. In any pass, a connected
  client whose name is in the new active set stays in the connected list as the same
  object, is not cleaned up, and no connection to its backend is attempted.
\<close>

theorem reconcile_idempotent:
  assumes "updateBackendConnections env nid cfg toolCfg s0 = (s1, fx1)"
    and "updateBackendConnections env nid' cfg toolCfg s1 = (s2, fx2)"
  shows "s2 = s1
    \<and> fx_cleanedUp fx2 = []
    \<and> (\<forall>nm k. Connected nm k \<notin> set (fx_connEvents fx2))
    \<and> (\<forall>c \<in> set (currentConnectedClients s0).
          cc_name c \<in> fst ` set (activeServersConfig cfg) \<longrightarrow>
            c \<in> set (currentConnectedClients s1)
            \<and> c \<notin> set (fx_cleanedUp fx1)
            \<and> (\<forall>k. ConnectAttempt (cc_name c) k \<notin> set (fx_connEvents fx1)))"
proof -
  let ?C = "clientsToKeep cfg s0 @ fst (createMcpClients env nid (configToAdd cfg s0))"
  have s1: "s1 = s0\<lparr>currentToolConfig := toolCfg, currentConnectedClients := ?C,
        toolToClientMap := foldl (toolsOf env toolCfg) [] ?C,
        resourceToClientMap := foldl (resourcesOf env) [] ?C,
        promptToClientMap := foldl (promptsOf env) [] ?C\<rparr>"
    and fx1: "fx_cleanedUp fx1 = clientsToRemove cfg s0"
      "fx_connEvents fx1 = fst (snd (createMcpClients env nid (configToAdd cfg s0)))"
    using assms(1) by (auto simp: updateBackendConnections_eq)
  have C: "currentConnectedClients s1 = ?C" using s1 by simp
  have keep: "clientsToKeep cfg s1 = ?C" using second_pass_keeps_all(1)[OF C] C by simp
  have none: "fst (createMcpClients env nid' (configToAdd cfg s1)) = []"
    using C by (rule second_pass_connects_none)
  have s2: "s2 = s1" 
    using assms(2) keep none s1 by (auto simp: updateBackendConnections_eq)
  have cl: "fx_cleanedUp fx2 = []"
    using assms(2) second_pass_keeps_all(2)[OF C] by (auto simp: updateBackendConnections_eq)
  have ev2: "fx_connEvents fx2 = fst (snd (createMcpClients env nid' (configToAdd cfg s1)))"
    using assms(2) by (auto simp: updateBackendConnections_eq)
  have noconn: "\<forall>nm k. Connected nm k \<notin> set (fx_connEvents fx2)"
  proof (intro allI notI)
    fix nm k
    assume "Connected nm k \<in> set (fx_connEvents fx2)"
    then have "Connected nm k \<in> set (fst (snd (createMcpClients env nid' (configToAdd cfg s1))))"
      using ev2 by simp
    from createMcpClients_events[OF this] show False using none by simp
  qed
  have kept: "\<forall>c \<in> set (currentConnectedClients s0).
          cc_name c \<in> fst ` set (activeServersConfig cfg) \<longrightarrow>
            c \<in> set (currentConnectedClients s1)
            \<and> c \<notin> set (fx_cleanedUp fx1)
            \<and> (\<forall>k. ConnectAttempt (cc_name c) k \<notin> set (fx_connEvents fx1))"
  proof (intro ballI impI conjI allI)
    fix c k
    assume c: "c \<in> set (currentConnectedClients s0)"
      and a: "cc_name c \<in> fst ` set (activeServersConfig cfg)"
    show "c \<in> set (currentConnectedClients s1)"
      using c a C by (simp add: clientsToKeep_def)
    show "c \<notin> set (fx_cleanedUp fx1)"
      using a fx1(1) by (simp add: clientsToRemove_def)
    show "ConnectAttempt (cc_name c) k \<notin> set (fx_connEvents fx1)"
    proof
      assume "ConnectAttempt (cc_name c) k \<in> set (fx_connEvents fx1)"
      then have "ConnectAttempt (cc_name c) k \<in> set (fst (snd (createMcpClients env nid (configToAdd cfg s0))))"
        using fx1(2) by simp
      from createMcpClients_events[OF this] have "cc_name c \<in> fst ` set (configToAdd cfg s0)" by simp
      then show False using c by (auto simp: configToAdd_def)
    qed
  qed
  show ?thesis using s2 cl noconn kept by blast
qed

text \<open>
  An instance: \<open>a\<close> and \<open>old\<close> are connected, the new configuration has \<open>a\<close>, the
  inactive \<open>off\<close>, \<open>bad\<close> and \<open>b\<close>. The first pass keeps \<open>a\<close>, cleans up \<open>old\<close>,
  fails on \<open>bad\<close> and connects \<open>b\<close>; the second pass changes nothing.
\<close>

theorem reconcile_idempotent_witness:
  "updateBackendConnections exEnv 2 exConfig Map.empty oldState =
     (fst (updateBackendConnections exEnv 2 exConfig Map.empty oldState),
      snd (updateBackendConnections exEnv 2 exConfig Map.empty oldState))
   \<and> updateBackendConnections exEnv 6 exConfig Map.empty
         (fst (updateBackendConnections exEnv 2 exConfig Map.empty oldState)) =
     (fst (updateBackendConnections exEnv 2 exConfig Map.empty oldState),
      snd (updateBackendConnections exEnv 6 exConfig Map.empty
         (fst (updateBackendConnections exEnv 2 exConfig Map.empty oldState))))
   \<and> fx_cleanedUp (snd (updateBackendConnections exEnv 6 exConfig Map.empty
         (fst (updateBackendConnections exEnv 2 exConfig Map.empty oldState)))) = []
   \<and> currentConnectedClients oldState =
       [\<lparr>cc_client = 0, cc_name = ''a''\<rparr>, \<lparr>cc_client = 1, cc_name = ''old''\<rparr>]
   \<and> ''a'' \<in> fst ` set (activeServersConfig exConfig)
   \<and> \<lparr>cc_client = 0, cc_name = ''a''\<rparr>
       \<in> set (currentConnectedClients (fst (updateBackendConnections exEnv 2 exConfig Map.empty oldState)))
   \<and> \<lparr>cc_client = 0, cc_name = ''a''\<rparr>
       \<notin> set (fx_cleanedUp (snd (updateBackendConnections exEnv 2 exConfig Map.empty oldState)))
   \<and> ConnectAttempt ''a'' 2
       \<notin> set (fx_connEvents (snd (updateBackendConnections exEnv 2 exConfig Map.empty oldState)))
   \<and> currentConnectedClients (fst (updateBackendConnections exEnv 2 exConfig Map.empty oldState)) =
       [\<lparr>cc_client = 0, cc_name = ''a''\<rparr>, \<lparr>cc_client = 5, cc_name = ''b''\<rparr>]
   \<and> fx_cleanedUp (snd (updateBackendConnections exEnv 2 exConfig Map.empty oldState)) =
       [\<lparr>cc_client = 1, cc_name = ''old''\<rparr>]"
proof -
  let ?u1 = "updateBackendConnections exEnv 2 exConfig Map.empty oldState"
  let ?u2 = "updateBackendConnections exEnv 6 exConfig Map.empty (fst ?u1)"
  have h1: "?u1 = (fst ?u1, snd ?u1)" by simp
  have h2: "?u2 = (fst ?u2, snd ?u2)" by simp
  note r = reconcile_idempotent [OF h1 h2]
  have old: "currentConnectedClients oldState =
       [\<lparr>cc_client = 0, cc_name = ''a''\<rparr>, \<lparr>cc_client = 1, cc_name = ''old''\<rparr>]"
    by code_simp
  have act: "''a'' \<in> fst ` set (activeServersConfig exConfig)" by code_simp
  have new: "currentConnectedClients (fst ?u1) =
       [\<lparr>cc_client = 0, cc_name = ''a''\<rparr>, \<lparr>cc_client = 5, cc_name = ''b''\<rparr>]"
    by code_simp
  have cl: "fx_cleanedUp (snd ?u1) = [\<lparr>cc_client = 1, cc_name = ''old''\<rparr>]"
    by code_simp
  have mem: "\<lparr>cc_client = 0, cc_name = ''a''\<rparr> \<in> set (currentConnectedClients oldState)"
    using old by simp
  have name: "cc_name \<lparr>cc_client = 0, cc_name = ''a''\<rparr> \<in> fst ` set (activeServersConfig exConfig)"
    using act by simp
  have same: "fst ?u2 = fst ?u1" using r by blast
  have kept: "\<lparr>cc_client = 0, cc_name = ''a''\<rparr> \<in> set (currentConnectedClients (fst ?u1))
     \<and> \<lparr>cc_client = 0, cc_name = ''a''\<rparr> \<notin> set (fx_cleanedUp (snd ?u1))
     \<and> ConnectAttempt (cc_name \<lparr>cc_client = 0, cc_name = ''a''\<rparr>) 2 \<notin> set (fx_connEvents (snd ?u1))"
    using r mem name by blast
  have none: "fx_cleanedUp (snd ?u2) = []" using r by blast
  have u2: "?u2 = (fst ?u1, snd ?u2)" using same h2 by simp
  show ?thesis using h1 u2 none old act kept new cl by simp
qed

subsection \<open>Discovery failures\<close>

lemma toolsOf_failed: "env_toolsList env b = Inl e \<Longrightarrow> toolsOf env cfg m b = m"
  by (simp add: toolsOf_def)

lemma resourcesOf_failed: "env_resourcesList env b = Inl e \<Longrightarrow> resourcesOf env m b = m"
  by (simp add: resourcesOf_def)

lemma promptsOf_failed: "env_promptsList env b = Inl e \<Longrightarrow> promptsOf env m b = m"
  by (simp add: promptsOf_def)

text \<open>
  Claim C6. When a backend's \<open>tools/list\<close> (or \<open>resources/list\<close>, or
  \<open>prompts/list\<close>) request fails, that \<open>try\<close> block leaves the state as it was, so the
  backend contributes no entry of that kind; the error is logged by \<open>console.error\<close>
  unless it is the \<open>McpError\<close> with code -32601, which is not logged. The routing map of
  that kind after the whole aggregation is the one obtained without that backend, so the
  entries of the other backends are as they would be without it. Every \<open>catch\<close> is a
  branch of the model, and the aggregation is a total function of the clients and their
  answers: it does not throw.
\<close>

theorem discovery_failure_isolated:
  "(env_toolsList env b = Inl e \<longrightarrow>
      discoverTools env b (s, lg) =
        (s, lg @ (if isMethodNotFound e then []
                  else [ErrorFetching ''tools'' (cc_name b) (err_message e)]))
      \<and> toolToClientMap (fst (aggregate env (s\<lparr>currentConnectedClients := before @ b # after\<rparr>))) =
        toolToClientMap (fst (aggregate env (s\<lparr>currentConnectedClients := before @ after\<rparr>))))
   \<and> (env_resourcesList env b = Inl e \<longrightarrow>
      discoverResources env b (s, lg) =
        (s, lg @ (if isMethodNotFound e then []
                  else [ErrorFetching ''resources'' (cc_name b) (err_message e)]))
      \<and> resourceToClientMap (fst (aggregate env (s\<lparr>currentConnectedClients := before @ b # after\<rparr>))) =
        resourceToClientMap (fst (aggregate env (s\<lparr>currentConnectedClients := before @ after\<rparr>))))
   \<and> (env_promptsList env b = Inl e \<longrightarrow>
      discoverPrompts env b (s, lg) =
        (s, lg @ (if isMethodNotFound e then []
                  else [ErrorFetching ''prompts'' (cc_name b) (err_message e)]))
      \<and> promptToClientMap (fst (aggregate env (s\<lparr>currentConnectedClients := before @ b # after\<rparr>))) =
        promptToClientMap (fst (aggregate env (s\<lparr>currentConnectedClients := before @ after\<rparr>))))"
proof (intro conjI impI)
  assume f: "env_toolsList env b = Inl e"
  show "discoverTools env b (s, lg) =
        (s, lg @ (if isMethodNotFound e then []
                  else [ErrorFetching ''tools'' (cc_name b) (err_message e)]))"
    using f by (simp add: discoverTools_def logUnless_def)
  show "toolToClientMap (fst (aggregate env (s\<lparr>currentConnectedClients := before @ b # after\<rparr>))) =
        toolToClientMap (fst (aggregate env (s\<lparr>currentConnectedClients := before @ after\<rparr>)))"
    using f by (simp add: aggregate_eq toolsOf_failed)
next
  assume f: "env_resourcesList env b = Inl e"
  show "discoverResources env b (s, lg) =
        (s, lg @ (if isMethodNotFound e then []
                  else [ErrorFetching ''resources'' (cc_name b) (err_message e)]))"
    using f by (simp add: discoverResources_def logUnless_def)
  show "resourceToClientMap (fst (aggregate env (s\<lparr>currentConnectedClients := before @ b # after\<rparr>))) =
        resourceToClientMap (fst (aggregate env (s\<lparr>currentConnectedClients := before @ after\<rparr>)))"
    using f by (simp add: aggregate_eq resourcesOf_failed)
next
  assume f: "env_promptsList env b = Inl e"
  show "discoverPrompts env b (s, lg) =
        (s, lg @ (if isMethodNotFound e then []
                  else [ErrorFetching ''prompts'' (cc_name b) (err_message e)]))"
    using f by (simp add: discoverPrompts_def logUnless_def)
  show "promptToClientMap (fst (aggregate env (s\<lparr>currentConnectedClients := before @ b # after\<rparr>))) =
        promptToClientMap (fst (aggregate env (s\<lparr>currentConnectedClients := before @ after\<rparr>)))"
    using f by (simp add: aggregate_eq promptsOf_failed)
qed

text \<open>
  An instance: \<open>c\<close> does not implement \<open>tools/list\<close> (not logged), \<open>b\<close>'s
  \<open>resources/list\<close> times out (logged), \<open>a\<close> does not implement \<open>prompts/list\<close>.
\<close>

theorem discovery_failure_isolated_witness:
  "env_toolsList exEnv clientC = Inl methodNotFound
   \<and> isMethodNotFound methodNotFound
   \<and> discoverTools exEnv clientC (initialState, []) = (initialState, [])
   \<and> map fst (toolToClientMap (fst (aggregate exEnv
        (initialState\<lparr>currentConnectedClients := [clientA] @ clientC # [clientB]\<rparr>)))) =
      [''a--ping'', ''a--echo'', ''b--pong'']
   \<and> toolToClientMap (fst (aggregate exEnv
        (initialState\<lparr>currentConnectedClients := [clientA] @ clientC # [clientB]\<rparr>))) =
      toolToClientMap (fst (aggregate exEnv
        (initialState\<lparr>currentConnectedClients := [clientA] @ [clientB]\<rparr>)))
   \<and> env_resourcesList exEnv clientB = Inl timeoutError
   \<and> \<not> isMethodNotFound timeoutError
   \<and> discoverResources exEnv clientB (initialState, []) =
       (initialState, [ErrorFetching ''resources'' ''b'' ''Request timed out''])
   \<and> resourceToClientMap (fst (aggregate exEnv
        (initialState\<lparr>currentConnectedClients := [clientA] @ clientB # []\<rparr>))) =
      [(''file:///x'', clientA)]
   \<and> env_promptsList exEnv clientA = Inl methodNotFound
   \<and> discoverPrompts exEnv clientA (initialState, []) = (initialState, [])
   \<and> promptToClientMap (fst (aggregate exEnv
        (initialState\<lparr>currentConnectedClients := [] @ clientA # [clientB]\<rparr>))) =
      [(''greet'', clientB)]"
proof -
  have t: "env_toolsList exEnv clientC = Inl methodNotFound" by code_simp
  have r: "env_resourcesList exEnv clientB = Inl timeoutError" by code_simp
  have p: "env_promptsList exEnv clientA = Inl methodNotFound" by code_simp
  have m: "isMethodNotFound methodNotFound" by code_simp
  have n: "\<not> isMethodNotFound timeoutError" by code_simp
  have keys: "map fst (toolToClientMap (fst (aggregate exEnv
        (initialState\<lparr>currentConnectedClients := [clientA] @ clientC # [clientB]\<rparr>)))) =
      [''a--ping'', ''a--echo'', ''b--pong'']" by code_simp
  have res: "resourceToClientMap (fst (aggregate exEnv
        (initialState\<lparr>currentConnectedClients := [clientA] @ []\<rparr>))) =
      [(''file:///x'', clientA)]" by code_simp
  have pro: "promptToClientMap (fst (aggregate exEnv
        (initialState\<lparr>currentConnectedClients := [] @ [clientB]\<rparr>))) =
      [(''greet'', clientB)]" by code_simp
  note T = discovery_failure_isolated
    [of exEnv clientC methodNotFound initialState "[]" "[clientA]" "[clientB]"]
  note R = discovery_failure_isolated
    [of exEnv clientB timeoutError initialState "[]" "[clientA]" "[]"]
  note P = discovery_failure_isolated
    [of exEnv clientA methodNotFound initialState "[]" "[]" "[clientB]"]
  have T': "discoverTools exEnv clientC (initialState, []) = (initialState, [])
    \<and> toolToClientMap (fst (aggregate exEnv
        (initialState\<lparr>currentConnectedClients := [clientA] @ clientC # [clientB]\<rparr>))) =
      toolToClientMap (fst (aggregate exEnv
        (initialState\<lparr>currentConnectedClients := [clientA] @ [clientB]\<rparr>)))"
    using T t m by simp
  have R': "discoverResources exEnv clientB (initialState, []) =
       (initialState, [ErrorFetching ''resources'' ''b'' ''Request timed out''])
    \<and> resourceToClientMap (fst (aggregate exEnv
        (initialState\<lparr>currentConnectedClients := [clientA] @ clientB # []\<rparr>))) =
      [(''file:///x'', clientA)]"
    using R r n res by (simp add: clientB_def timeoutError_def)
  have P': "discoverPrompts exEnv clientA (initialState, []) = (initialState, [])
    \<and> promptToClientMap (fst (aggregate exEnv
        (initialState\<lparr>currentConnectedClients := [] @ clientA # [clientB]\<rparr>))) =
      [(''greet'', clientB)]"
    using P p m pro by simp
  show ?thesis using t r p m n keys T' R' P' by simp
qed

subsection \<open>The tool map after a reconciliation\<close>

lemma addTool_mem:
  "(k, e) \<in> set (addTool cfg c m t) \<Longrightarrow>
     (k, e) \<in> set m
     \<or> (e = \<lparr>te_client = c, te_toolInfo = t\<rparr>
        \<and> k = qualifiedName (cc_name c) (tool_name t) \<and> isEnabled cfg k)"
  using set_map_set[of "qualifiedName (cc_name c) (tool_name t)" "\<lparr>te_client = c, te_toolInfo = t\<rparr>" m]
  by (auto simp: addTool_def Let_def split: if_splits)


lemma foldl_addTool_mem:
  "(k, e) \<in> set (foldl (addTool cfg c) m ts) \<Longrightarrow>
     (k, e) \<in> set m
     \<or> (te_client e = c \<and> te_toolInfo e \<in> set ts
        \<and> k = qualifiedName (cc_name c) (tool_name (te_toolInfo e)) \<and> isEnabled cfg k)"
proof (induction ts arbitrary: m)
  case Nil
  then show ?case by simp
next
  case (Cons t ts)
  from Cons.prems have "(k, e) \<in> set (foldl (addTool cfg c) (addTool cfg c m t) ts)" by simp
  from Cons.IH[OF this] show ?case using addTool_mem[of k e cfg c m t] by auto
qed


lemma toolsOf_mem:
  "(k, e) \<in> set (toolsOf env cfg m c) \<Longrightarrow>
     (k, e) \<in> set m
     \<or> (te_client e = c \<and> (\<exists>ts. env_toolsList env c = Inr ts \<and> te_toolInfo e \<in> set ts)
        \<and> k = qualifiedName (cc_name c) (tool_name (te_toolInfo e)) \<and> isEnabled cfg k)"
  using foldl_addTool_mem[of k e cfg c m]
  by (auto simp: toolsOf_def split: sum.splits)


lemma foldl_toolsOf_mem:
  "(k, e) \<in> set (foldl (toolsOf env cfg) m cs) \<Longrightarrow>
     (k, e) \<in> set m
     \<or> (te_client e \<in> set cs
        \<and> (\<exists>ts. env_toolsList env (te_client e) = Inr ts \<and> te_toolInfo e \<in> set ts)
        \<and> k = qualifiedName (cc_name (te_client e)) (tool_name (te_toolInfo e))
        \<and> isEnabled cfg k)"
proof (induction cs arbitrary: m)
  case Nil
  then show ?case by simp
next
  case (Cons c cs)
  from Cons.prems have "(k, e) \<in> set (foldl (toolsOf env cfg) (toolsOf env cfg m c) cs)" by simp
  from Cons.IH[OF this] show ?case using toolsOf_mem[of k e env cfg m c] by auto
qed


text \<open>What holds of every entry of the tool map after a reconciliation.\<close>

lemma updated_toolmap_entry:
  assumes "updateBackendConnections env nid cfg toolCfg s0 = (s, fx)"
    and "(k, e) \<in> set (toolToClientMap s)"
  shows "k = qualifiedName (cc_name (te_client e)) (tool_name (te_toolInfo e))"
    and "isEnabled toolCfg k"
    and "te_client e \<in> set (currentConnectedClients s)"
    and "\<exists>ts. env_toolsList env (te_client e) = Inr ts \<and> te_toolInfo e \<in> set ts"
proof -
  let ?C = "clientsToKeep cfg s0 @ fst (createMcpClients env nid (configToAdd cfg s0))"
  have m: "toolToClientMap s = foldl (toolsOf env toolCfg) [] ?C"
    and c: "currentConnectedClients s = ?C"
    using assms(1) by (auto simp: updateBackendConnections_eq)
  have "(k, e) \<in> set (foldl (toolsOf env toolCfg) [] ?C)" using assms(2) m by simp
  from foldl_toolsOf_mem[OF this]
  show "k = qualifiedName (cc_name (te_client e)) (tool_name (te_toolInfo e))"
    and "isEnabled toolCfg k"
    and "te_client e \<in> set (currentConnectedClients s)"
    and "\<exists>ts. env_toolsList env (te_client e) = Inr ts \<and> te_toolInfo e \<in> set ts"
    using c by auto
qed


lemma updated_toolConfig:
  "updateBackendConnections env nid cfg toolCfg s0 = (s, fx) \<Longrightarrow> currentToolConfig s = toolCfg"
  by (auto simp: updateBackendConnections_eq)

lemma findExposed_first:
  "\<forall>(k, e) \<in> set pre. exposedNameOf cfg k \<noteq> X \<Longrightarrow> exposedNameOf cfg key = X \<Longrightarrow>
     findExposed cfg X (pre @ (key, entry) # post) = Some (key, entry)"
  by (induction pre) auto


lemma findExposed_upto:
  "i < length m \<Longrightarrow> \<forall>j<i. exposedNameOf cfg (fst (m ! j)) \<noteq> X \<Longrightarrow>
     exposedNameOf cfg (fst (m ! i)) = X \<Longrightarrow> findExposed cfg X m = Some (m ! i)"
proof (induction cfg X m arbitrary: i rule: findExposed.induct)
  case (1 cfg requested)
  then show ?case by simp
next
  case (2 cfg requested key entry m)
  show ?case
  proof (cases i)
    case 0
    then show ?thesis using "2.prems" by simp
  next
    case (Suc i')
    have first: "exposedNameOf cfg key \<noteq> requested" using "2.prems"(2) Suc by auto
    have "\<forall>j<i'. exposedNameOf cfg (fst (m ! j)) \<noteq> requested"
      using "2.prems"(2) Suc by auto
    then have "findExposed cfg requested m = Some (m ! i')"
      using "2.IH"[OF first, of i'] "2.prems" Suc by simp
    then show ?thesis using first Suc by simp
  qed
qed

subsection \<open>Routing of tool calls\<close>

text \<open>
  Claim C10. After a reconciliation, \<open>tools/call\<close> with an exposed name is forwarded to the
  first entry of the tool map, in its insertion order, whose exposed name is the requested
  one: the call does not fail, whatever follows that entry, so a later entry with the same
  exposed name is never reached through that name.
\<close>

theorem callTool_first_match:
  assumes "updateBackendConnections env nid cfg toolCfg s0 = (s, fx)"
    and "toolToClientMap s = pre @ (key, entry) # post"
    and "\<forall>(k, e) \<in> set pre. exposedNameOf toolCfg k \<noteq> X"
    and "exposedNameOf toolCfg key = X"
  shows "handleCallTool s \<lparr>rq_name = X, rq_arguments = args\<rparr> =
     Inr \<lparr>br_client = te_client entry, br_method = ''tools/call'',
          br_name = tool_name (te_toolInfo entry),
          br_arguments = (case args of None \<Rightarrow> [] | Some a \<Rightarrow> a)\<rparr>"
proof -
  have cfg: "currentToolConfig s = toolCfg" using assms(1) by (rule updated_toolConfig)
  have "(key, entry) \<in> set (toolToClientMap s)" using assms(2) by simp
  then have "key = qualifiedName (cc_name (te_client entry)) (tool_name (te_toolInfo entry))"
    using updated_toolmap_entry(1)[OF assms(1)] by blast
  then have ne: "key \<noteq> []" using qualifiedName_nonempty by simp
  have "findExposed toolCfg X (toolToClientMap s) = Some (key, entry)"
    unfolding assms(2) using assms(3,4) by (rule findExposed_first)
  then show ?thesis using cfg ne by (simp add: handleCallTool_def)
qed

text \<open>
  An instance: \<open>a--echo\<close> and \<open>b--pong\<close> are both exposed as \<open>shared\<close>; the call goes
  to \<open>echo\<close> on backend \<open>a\<close>, aggregated first.
\<close>

theorem callTool_first_match_witness:
  "updateBackendConnections exEnv 2 exConfig sharedNameConfig oldState =
     (sharedNameState, snd (updateBackendConnections exEnv 2 exConfig sharedNameConfig oldState))
   \<and> toolToClientMap sharedNameState =
       [(''a--ping'', \<lparr>te_client = clientA, te_toolInfo = pingTool\<rparr>)]
       @ (''a--echo'', \<lparr>te_client = clientA, te_toolInfo = echoTool\<rparr>)
       # [(''b--pong'', \<lparr>te_client = clientB, te_toolInfo = pongTool\<rparr>)]
   \<and> exposedNameOf sharedNameConfig ''a--ping'' \<noteq> ''shared''
   \<and> exposedNameOf sharedNameConfig ''a--echo'' = ''shared''
   \<and> exposedNameOf sharedNameConfig ''b--pong'' = ''shared''
   \<and> handleCallTool sharedNameState
         \<lparr>rq_name = ''shared'', rq_arguments = Some [(''text'', ''hi'')]\<rparr> =
       Inr \<lparr>br_client = clientA, br_method = ''tools/call'', br_name = ''echo'',
            br_arguments = [(''text'', ''hi'')]\<rparr>"
proof -
  have h1: "updateBackendConnections exEnv 2 exConfig sharedNameConfig oldState =
     (sharedNameState, snd (updateBackendConnections exEnv 2 exConfig sharedNameConfig oldState))"
    by (simp add: sharedNameState_def)
  have h2: "toolToClientMap sharedNameState =
       [(''a--ping'', \<lparr>te_client = clientA, te_toolInfo = pingTool\<rparr>)]
       @ (''a--echo'', \<lparr>te_client = clientA, te_toolInfo = echoTool\<rparr>)
       # [(''b--pong'', \<lparr>te_client = clientB, te_toolInfo = pongTool\<rparr>)]"
    by code_simp
  have p: "exposedNameOf sharedNameConfig ''a--ping'' \<noteq> ''shared''" by code_simp
  have h3: "\<forall>(k, e) \<in> set [(''a--ping'', \<lparr>te_client = clientA, te_toolInfo = pingTool\<rparr>)].
      exposedNameOf sharedNameConfig k \<noteq> ''shared''"
    using p by simp
  have h4: "exposedNameOf sharedNameConfig ''a--echo'' = ''shared''" by code_simp
  have h5: "exposedNameOf sharedNameConfig ''b--pong'' = ''shared''" by code_simp
  have nm: "tool_name echoTool = ''echo''" by (simp add: echoTool_def)
  have "handleCallTool sharedNameState
         \<lparr>rq_name = ''shared'', rq_arguments = Some [(''text'', ''hi'')]\<rparr> =
       Inr \<lparr>br_client = clientA, br_method = ''tools/call'', br_name = ''echo'',
            br_arguments = [(''text'', ''hi'')]\<rparr>"
    using callTool_first_match [OF h1 h2 h3 h4, of "Some [(''text'', ''hi'')]"] nm by simp
  then show ?thesis using h1 h2 p h4 h5 by simp
qed

text \<open>
  Claim C1, as the code has it. After a reconciliation, for the entry at position \<open>i\<close> of
  the tool map, with key \<open>Q\<close>, whose override sets a non-empty \<open>exposedName\<close> \<open>X\<close>:
  \<open>Q\<close> is the qualified name of the entry's backend and tool; \<open>tools/list\<close> returns at
  position \<open>i\<close> the name \<open>X\<close>, the override's description when it is present and not
  empty and the tool's own description otherwise, and the tool's input schema; and when no
  earlier entry has the exposed name \<open>X\<close>, \<open>tools/call\<close> with \<open>X\<close> is forwarded on the
  entry's client with the backend's local tool name and the caller's arguments (an empty
  object when the caller gave none).
\<close>

theorem override_round_trip:
  assumes "updateBackendConnections env nid cfg toolCfg s0 = (s, fx)"
    and "i < length (toolToClientMap s)"
    and "toolToClientMap s ! i = (Q, entry)"
    and "toolCfg Q = Some ov"
    and "ts_exposedName ov = Some X"
    and "X \<noteq> []"
  shows "Q = qualifiedName (cc_name (te_client entry)) (tool_name (te_toolInfo entry))
    \<and> lt_name (handleListTools s ! i) = X
    \<and> lt_description (handleListTools s ! i) =
        (case ts_exposedDescription ov of
           None \<Rightarrow> tool_description (te_toolInfo entry)
         | Some d \<Rightarrow> if d = [] then tool_description (te_toolInfo entry) else Some d)
    \<and> lt_inputSchema (handleListTools s ! i) = tool_inputSchema (te_toolInfo entry)
    \<and> ((\<forall>j<i. exposedNameOf toolCfg (fst (toolToClientMap s ! j)) \<noteq> X) \<longrightarrow>
         handleCallTool s \<lparr>rq_name = X, rq_arguments = args\<rparr> =
           Inr \<lparr>br_client = te_client entry, br_method = ''tools/call'',
                br_name = tool_name (te_toolInfo entry),
                br_arguments = (case args of None \<Rightarrow> [] | Some a \<Rightarrow> a)\<rparr>)"
proof -
  have cfg: "currentToolConfig s = toolCfg" using assms(1) by (rule updated_toolConfig)
  have mem: "(Q, entry) \<in> set (toolToClientMap s)"
    using assms(2,3) nth_mem[of i "toolToClientMap s"] by simp
  have q: "Q = qualifiedName (cc_name (te_client entry)) (tool_name (te_toolInfo entry))"
    using updated_toolmap_entry(1)[OF assms(1) mem] .
  then have ne: "Q \<noteq> []" using qualifiedName_nonempty by simp
  have ex: "exposedNameOf toolCfg Q = X"
    using assms(4,5,6) by (simp add: exposedNameOf_def js_or_def)
  have listed: "handleListTools s ! i = listedTool toolCfg (Q, entry)"
    using assms(2,3) cfg by (simp add: handleListTools_def)
  have nm: "lt_name (handleListTools s ! i) = X"
    using listed ex by (simp add: listedTool_def)
  have ds: "lt_description (handleListTools s ! i) =
        (case ts_exposedDescription ov of
           None \<Rightarrow> tool_description (te_toolInfo entry)
         | Some d \<Rightarrow> if d = [] then tool_description (te_toolInfo entry) else Some d)"
    using listed assms(4) by (simp add: listedTool_def js_or_opt_def)
  have sc: "lt_inputSchema (handleListTools s ! i) = tool_inputSchema (te_toolInfo entry)"
    using listed by (simp add: listedTool_def)
  have call: "(\<forall>j<i. exposedNameOf toolCfg (fst (toolToClientMap s ! j)) \<noteq> X) \<longrightarrow>
         handleCallTool s \<lparr>rq_name = X, rq_arguments = args\<rparr> =
           Inr \<lparr>br_client = te_client entry, br_method = ''tools/call'',
                br_name = tool_name (te_toolInfo entry),
                br_arguments = (case args of None \<Rightarrow> [] | Some a \<Rightarrow> a)\<rparr>"
  proof
    assume first: "\<forall>j<i. exposedNameOf toolCfg (fst (toolToClientMap s ! j)) \<noteq> X"
    have "exposedNameOf toolCfg (fst (toolToClientMap s ! i)) = X" using ex assms(3) by simp
    then have "findExposed toolCfg X (toolToClientMap s) = Some (Q, entry)"
      using findExposed_upto[OF assms(2) first] assms(3) by simp
    then show "handleCallTool s \<lparr>rq_name = X, rq_arguments = args\<rparr> =
           Inr \<lparr>br_client = te_client entry, br_method = ''tools/call'',
                br_name = tool_name (te_toolInfo entry),
                br_arguments = (case args of None \<Rightarrow> [] | Some a \<Rightarrow> a)\<rparr>"
      using cfg ne by (simp add: handleCallTool_def)
  qed
  show ?thesis using q nm ds sc call by blast
qed

text \<open>An instance: \<open>b--pong\<close> exposed as \<open>a--echo\<close>, a name no earlier entry has.\<close>

theorem override_round_trip_witness:
  "updateBackendConnections exEnv 2 exConfig overrideConfig oldState =
     (overrideState, snd (updateBackendConnections exEnv 2 exConfig overrideConfig oldState))
   \<and> (1::nat) < length (toolToClientMap overrideState)
   \<and> toolToClientMap overrideState ! 1 = (''b--pong'', \<lparr>te_client = clientB, te_toolInfo = pongTool\<rparr>)
   \<and> overrideConfig ''b--pong'' = Some \<lparr>ts_enabled = None, ts_exposedName = Some ''a--echo'',
        ts_exposedDescription = Some ''Pong of b''\<rparr>
   \<and> exposedNameOf overrideConfig (fst (toolToClientMap overrideState ! 0)) \<noteq> ''a--echo''
   \<and> ''b--pong'' = qualifiedName (cc_name clientB) (tool_name pongTool)
   \<and> lt_name (handleListTools overrideState ! 1) = ''a--echo''
   \<and> lt_description (handleListTools overrideState ! 1) = Some ''Pong of b''
   \<and> lt_inputSchema (handleListTools overrideState ! 1) = tool_inputSchema pongTool
   \<and> handleCallTool overrideState \<lparr>rq_name = ''a--echo'', rq_arguments = Some [(''n'', ''1'')]\<rparr> =
       Inr \<lparr>br_client = clientB, br_method = ''tools/call'', br_name = tool_name pongTool,
            br_arguments = [(''n'', ''1'')]\<rparr>"
proof -
  let ?ov = "\<lparr>ts_enabled = None, ts_exposedName = Some ''a--echo'',
        ts_exposedDescription = Some ''Pong of b''\<rparr>"
  have h1: "updateBackendConnections exEnv 2 exConfig overrideConfig oldState =
     (overrideState, snd (updateBackendConnections exEnv 2 exConfig overrideConfig oldState))"
    by (simp add: overrideState_def)
  have h2: "(1::nat) < length (toolToClientMap overrideState)" by code_simp
  have h3: "toolToClientMap overrideState ! 1 =
      (''b--pong'', \<lparr>te_client = clientB, te_toolInfo = pongTool\<rparr>)" by code_simp
  have h4: "overrideConfig ''b--pong'' = Some ?ov" by code_simp
  have h5: "ts_exposedName ?ov = Some ''a--echo''" by simp
  have h6: "''a--echo'' \<noteq> []" by simp
  have f: "exposedNameOf overrideConfig (fst (toolToClientMap overrideState ! 0)) \<noteq> ''a--echo''"
    by code_simp
  have first: "\<forall>j<1. exposedNameOf overrideConfig (fst (toolToClientMap overrideState ! j)) \<noteq> ''a--echo''"
    using f by simp
  note r = override_round_trip [OF h1 h2 h3 h4 h5 h6, of "Some [(''n'', ''1'')]"]
  have r': "''b--pong'' = qualifiedName (cc_name clientB) (tool_name pongTool)
   \<and> lt_name (handleListTools overrideState ! 1) = ''a--echo''
   \<and> lt_description (handleListTools overrideState ! 1) = Some ''Pong of b''
   \<and> lt_inputSchema (handleListTools overrideState ! 1) = tool_inputSchema pongTool
   \<and> handleCallTool overrideState \<lparr>rq_name = ''a--echo'', rq_arguments = Some [(''n'', ''1'')]\<rparr> =
       Inr \<lparr>br_client = clientB, br_method = ''tools/call'', br_name = tool_name pongTool,
            br_arguments = [(''n'', ''1'')]\<rparr>"
    using r first by simp
  show ?thesis using h1 h2 h3 h4 f r' by simp
qed

text \<open>
  Claim C1 as stated fails. The override of \<open>b--pong\<close> sets the exposed name \<open>shared\<close>,
  yet \<open>tools/call\<close> with \<open>shared\<close> is forwarded to backend \<open>a\<close> with the local name
  \<open>echo\<close>, whose override sets the same exposed name. The override of \<open>a--ping\<close> sets
  the empty exposed name, yet \<open>tools/list\<close> returns \<open>a--ping\<close> for it and
  \<open>tools/call\<close> with the empty name is refused. The override of \<open>a--echo\<close> sets the
  empty description, yet \<open>tools/list\<close> returns the tool's own description.
\<close>

theorem override_round_trip_counterexample:
  "sharedNameConfig ''b--pong'' = Some \<lparr>ts_enabled = Some True, ts_exposedName = Some ''shared'',
        ts_exposedDescription = Some ''Pong of b''\<rparr>
   \<and> toolToClientMap sharedNameState ! 2 = (''b--pong'', \<lparr>te_client = clientB, te_toolInfo = pongTool\<rparr>)
   \<and> handleCallTool sharedNameState \<lparr>rq_name = ''shared'', rq_arguments = None\<rparr> =
       Inr \<lparr>br_client = clientA, br_method = ''tools/call'', br_name = ''echo'', br_arguments = []\<rparr>
   \<and> sharedNameConfig ''a--ping'' = Some \<lparr>ts_enabled = None, ts_exposedName = Some [],
        ts_exposedDescription = None\<rparr>
   \<and> toolToClientMap sharedNameState ! 0 = (''a--ping'', \<lparr>te_client = clientA, te_toolInfo = pingTool\<rparr>)
   \<and> map lt_name (handleListTools sharedNameState) = [''a--ping'', ''shared'', ''shared'']
   \<and> handleCallTool sharedNameState \<lparr>rq_name = [], rq_arguments = None\<rparr> = Inl (UnknownTool [])
   \<and> sharedNameConfig ''a--echo'' = Some \<lparr>ts_enabled = None, ts_exposedName = Some ''shared'',
        ts_exposedDescription = Some []\<rparr>
   \<and> lt_description (handleListTools sharedNameState ! 1) = Some ''Echo''"
  by code_simp




subsection \<open>State export\<close>

text \<open>
  Claim C7, as the code has it. After a reconciliation, \<open>getCurrentProxyState\<close> returns
  one record per entry of the tool map, in the map's order, holding the tool's local name
  as the backend reported it, the name of the owning backend (\<open>Unknown\<close> when that name is
  empty) and the tool's own description; the key of the entry is the qualified name formed
  from the record's server name and name.
\<close>

theorem proxy_state_export:
  assumes "updateBackendConnections env nid cfg toolCfg s0 = (s, fx)"
    and "i < length (toolToClientMap s)"
  shows "length (getCurrentProxyState s) = length (toolToClientMap s)
    \<and> ps_name (getCurrentProxyState s ! i) = tool_name (te_toolInfo (snd (toolToClientMap s ! i)))
    \<and> ps_serverName (getCurrentProxyState s ! i) =
        (if cc_name (te_client (snd (toolToClientMap s ! i))) = [] then ''Unknown''
         else cc_name (te_client (snd (toolToClientMap s ! i))))
    \<and> ps_description (getCurrentProxyState s ! i) =
        tool_description (te_toolInfo (snd (toolToClientMap s ! i)))
    \<and> fst (toolToClientMap s ! i) =
        qualifiedName (cc_name (te_client (snd (toolToClientMap s ! i))))
          (ps_name (getCurrentProxyState s ! i))"
proof -
  obtain k e where ke: "toolToClientMap s ! i = (k, e)" by (cases "toolToClientMap s ! i")
  have "(k, e) \<in> set (toolToClientMap s)" using assms(2) ke nth_mem[of i "toolToClientMap s"] by simp
  then have q: "k = qualifiedName (cc_name (te_client e)) (tool_name (te_toolInfo e))"
    using updated_toolmap_entry(1)[OF assms(1)] by blast
  have len: "length (getCurrentProxyState s) = length (toolToClientMap s)"
    by (simp add: getCurrentProxyState_def)
  have item: "getCurrentProxyState s ! i =
      \<lparr>ps_name = tool_name (te_toolInfo e),
       ps_serverName = js_or (Some (cc_name (te_client e))) ''Unknown'',
       ps_description = tool_description (te_toolInfo e)\<rparr>"
    using assms(2) ke by (simp add: getCurrentProxyState_def)
  show ?thesis using len item ke q by (simp add: js_or_def)
qed

text \<open>An instance: the second entry of the example state.\<close>

theorem proxy_state_export_witness:
  "updateBackendConnections exEnv 2 exConfig overrideConfig oldState =
     (overrideState, snd (updateBackendConnections exEnv 2 exConfig overrideConfig oldState))
   \<and> (1::nat) < length (toolToClientMap overrideState)
   \<and> toolToClientMap overrideState ! 1 = (''b--pong'', \<lparr>te_client = clientB, te_toolInfo = pongTool\<rparr>)
   \<and> length (getCurrentProxyState overrideState) = length (toolToClientMap overrideState)
   \<and> ps_name (getCurrentProxyState overrideState ! 1) = tool_name pongTool
   \<and> ps_serverName (getCurrentProxyState overrideState ! 1) = ''b''
   \<and> ps_description (getCurrentProxyState overrideState ! 1) = tool_description pongTool
   \<and> ''b--pong'' = qualifiedName ''b'' (ps_name (getCurrentProxyState overrideState ! 1))"
proof -
  have h1: "updateBackendConnections exEnv 2 exConfig overrideConfig oldState =
     (overrideState, snd (updateBackendConnections exEnv 2 exConfig overrideConfig oldState))"
    by (simp add: overrideState_def)
  have h2: "(1::nat) < length (toolToClientMap overrideState)" by code_simp
  have e: "toolToClientMap overrideState ! 1 =
      (''b--pong'', \<lparr>te_client = clientB, te_toolInfo = pongTool\<rparr>)" by code_simp
  have b: "cc_name clientB = ''b''" by (simp add: clientB_def)
  have r: "length (getCurrentProxyState overrideState) = length (toolToClientMap overrideState)
   \<and> ps_name (getCurrentProxyState overrideState ! 1) = tool_name pongTool
   \<and> ps_serverName (getCurrentProxyState overrideState ! 1) = ''b''
   \<and> ps_description (getCurrentProxyState overrideState ! 1) = tool_description pongTool
   \<and> ''b--pong'' = qualifiedName ''b'' (ps_name (getCurrentProxyState overrideState ! 1))"
    using proxy_state_export [OF h1 h2] e b by simp
  show ?thesis using h1 h2 e r by simp
qed

text \<open>
  Claim C7 as stated fails. \<open>a--ping\<close> has no override, so its exposed name is
  \<open>a--ping\<close>, and \<open>b--pong\<close> is exposed as \<open>a--echo\<close>, as \<open>tools/list\<close> shows; the
  exported records carry the names \<open>ping\<close> and \<open>pong\<close>. For a backend configured under
  the empty key the exported server name is \<open>Unknown\<close>.
\<close>

theorem proxy_state_export_counterexample:
  "map fst (toolToClientMap overrideState) = [''a--ping'', ''b--pong'']
   \<and> overrideConfig ''a--ping'' = None
   \<and> overrideConfig ''b--pong'' = Some \<lparr>ts_enabled = None, ts_exposedName = Some ''a--echo'',
        ts_exposedDescription = Some ''Pong of b''\<rparr>
   \<and> map lt_name (handleListTools overrideState) = [''a--ping'', ''a--echo'']
   \<and> getCurrentProxyState overrideState =
       [\<lparr>ps_name = ''ping'', ps_serverName = ''a'', ps_description = Some ''Ping''\<rparr>,
        \<lparr>ps_name = ''pong'', ps_serverName = ''b'', ps_description = None\<rparr>]
   \<and> map (cc_name \<circ> te_client \<circ> snd) (toolToClientMap
        (fst (updateBackendConnections exEnv 0 [([], stdioConf)] Map.empty initialState))) = [[]]
   \<and> getCurrentProxyState
        (fst (updateBackendConnections exEnv 0 [([], stdioConf)] Map.empty initialState)) =
       [\<lparr>ps_name = ''ping'', ps_serverName = ''Unknown'', ps_description = Some ''Ping''\<rparr>]"
  by code_simp

subsection \<open>What a request sees during a reconciliation\<close>















subsection \<open>Event-stream sessions\<close>

text \<open>Only non-empty session ids are ever registered.\<close>

lemma handleSse_registry_nonempty_ids:
  "sseTransports st [] = None \<Longrightarrow>
     sseTransports (fst (handleSse st authorized claimed tr sid connected)) [] = None"
  by (auto simp: handleSse_def closeExisting_def split: option.splits Outcome.splits prod.splits)

text \<open>
  Claim C9. An accepted event-stream connection claims the session id \<open>old\<close>, which is
  registered, and the SDK gives the new transport a fresh id (not empty, not registered).
  Then the existing transport is closed and \<open>old\<close> is removed from the registry; when the
  server accepts the new transport it is registered under the fresh id and no other session
  changes; afterwards a POST to the message endpoint with \<open>old\<close> as its session id, in the
  path or in the query, or with any id that is not registered, is answered 404 and handed
  to no transport. A late \<open>onclose\<close> of the replaced transport changes nothing.
\<close>

theorem sse_session_replacement:
  assumes "authorized"
    and "sseTransports st [] = None"
    and "sseTransports st old = Some existing"
    and "newSid \<noteq> []"
    and "sseTransports st newSid = None"
    and "handleSse st authorized (Some old) transport newSid connected = (st', evs)"
  shows "TransportClosed existing \<in> set evs
    \<and> sseTransports st' old = None
    \<and> (connected = Completed \<longrightarrow>
          sseTransports st' newSid = Some transport
          \<and> (\<forall>sid. sid \<noteq> old \<and> sid \<noteq> newSid \<longrightarrow> sseTransports st' sid = sseTransports st sid))
    \<and> handleMessage st' (Some old) querySessionId handled = [Responded 404]
    \<and> handleMessage st' None (Some old) handled = [Responded 404]
    \<and> (requestSessionId paramsSessionId querySessionId = Some sid \<and> sid \<noteq> []
          \<and> sseTransports st' sid = None \<longrightarrow>
            handleMessage st' paramsSessionId querySessionId handled = [Responded 404])
    \<and> sseOnClose st' old = st'"
proof -
  have ne: "old \<noteq> []" using assms(2,3) by auto
  have diff: "newSid \<noteq> old" using assms(3,5) by auto
  have ce: "closeExisting st (Some old) =
      (st\<lparr>sseTransports := (sseTransports st)(old := None)\<rparr>, [TransportClosed existing])"
    using ne assms(3) by (simp add: closeExisting_def)
  have closed: "TransportClosed existing \<in> set evs"
    using assms(1,4,6) ce by (auto simp: handleSse_def split: Outcome.splits if_splits)
  have gone: "sseTransports st' old = None"
    using assms(1,4,6) ce diff by (auto simp: handleSse_def split: Outcome.splits if_splits)
  have reg: "connected = Completed \<longrightarrow>
          sseTransports st' newSid = Some transport
          \<and> (\<forall>sid. sid \<noteq> old \<and> sid \<noteq> newSid \<longrightarrow> sseTransports st' sid = sseTransports st sid)"
    using assms(1,4,6) ce by (auto simp: handleSse_def)
  have p1: "handleMessage st' (Some old) querySessionId handled = [Responded 404]"
    using gone ne by (simp add: handleMessage_def requestSessionId_def)
  have p2: "handleMessage st' None (Some old) handled = [Responded 404]"
    using gone ne by (simp add: handleMessage_def requestSessionId_def)
  have p3: "requestSessionId paramsSessionId querySessionId = Some sid \<and> sid \<noteq> []
          \<and> sseTransports st' sid = None \<longrightarrow>
            handleMessage st' paramsSessionId querySessionId handled = [Responded 404]"
    by (simp add: handleMessage_def)
  have oc: "sseOnClose st' old = st'" using gone by (simp add: sseOnClose_def)
  show ?thesis using closed gone reg p1 p2 p3 oc by blast
qed

text \<open>
  An instance: the session \<open>abc\<close> is claimed again and the new transport gets the id
  \<open>s-2\<close>.
\<close>

theorem sse_session_replacement_witness:
  "sseTransports httpExample [] = None
   \<and> sseTransports httpExample ''abc'' = Some 1
   \<and> ''s-2'' \<noteq> []
   \<and> sseTransports httpExample ''s-2'' = None
   \<and> snd (handleSse httpExample True (Some ''abc'') 7 ''s-2'' Completed) = [TransportClosed 1]
   \<and> sseTransports (fst (handleSse httpExample True (Some ''abc'') 7 ''s-2'' Completed)) ''abc'' = None
   \<and> sseTransports (fst (handleSse httpExample True (Some ''abc'') 7 ''s-2'' Completed)) ''s-2'' = Some 7
   \<and> sseTransports (fst (handleSse httpExample True (Some ''abc'') 7 ''s-2'' Completed)) ''def'' = Some 2
   \<and> handleMessage (fst (handleSse httpExample True (Some ''abc'') 7 ''s-2'' Completed))
        (Some ''abc'') None Completed = [Responded 404]
   \<and> handleMessage (fst (handleSse httpExample True (Some ''abc'') 7 ''s-2'' Completed))
        None (Some ''abc'') Completed = [Responded 404]
   \<and> requestSessionId None (Some ''zzz'') = Some ''zzz''
   \<and> sseTransports (fst (handleSse httpExample True (Some ''abc'') 7 ''s-2'' Completed)) ''zzz'' = None
   \<and> handleMessage (fst (handleSse httpExample True (Some ''abc'') 7 ''s-2'' Completed))
        None (Some ''zzz'') Completed = [Responded 404]
   \<and> handleMessage (fst (handleSse httpExample True (Some ''abc'') 7 ''s-2'' Completed))
        (Some ''s-2'') None Completed = [PostMessageHandled 7]"
proof -
  let ?r = "handleSse httpExample True (Some ''abc'') 7 ''s-2'' Completed"
  have h1: "True" by simp
  have h2: "sseTransports httpExample [] = None" by (simp add: httpExample_def)
  have h3: "sseTransports httpExample ''abc'' = Some 1" by (simp add: httpExample_def)
  have h4: "''s-2'' \<noteq> []" by simp
  have h5: "sseTransports httpExample ''s-2'' = None" by (simp add: httpExample_def)
  have h6: "?r = (fst ?r, snd ?r)" by simp
  have ev: "snd ?r = [TransportClosed 1]"
    by (simp add: handleSse_def closeExisting_def httpExample_def)
  have other: "sseTransports httpExample ''def'' = Some 2" by (simp add: httpExample_def)
  have q: "requestSessionId None (Some ''zzz'') = Some ''zzz''" by (simp add: requestSessionId_def)
  have z: "sseTransports (fst ?r) ''zzz'' = None"
    by (simp add: handleSse_def closeExisting_def httpExample_def)
  have new: "handleMessage (fst ?r) (Some ''s-2'') None Completed = [PostMessageHandled 7]"
    by (simp add: handleSse_def closeExisting_def httpExample_def handleMessage_def
        requestSessionId_def)
  note r = sse_session_replacement [OF h1 h2 h3 h4 h5 h6]
  have a: "sseTransports (fst ?r) ''abc'' = None" using r by blast
  have b: "sseTransports (fst ?r) ''s-2'' = Some 7" using r by blast
  have c: "sseTransports (fst ?r) ''def'' = Some 2"
    using r [of None Completed None "[]"] other by simp
  have d: "handleMessage (fst ?r) (Some ''abc'') None Completed = [Responded 404]"
    using r [of None Completed None "[]"] by blast
  have e: "handleMessage (fst ?r) None (Some ''abc'') Completed = [Responded 404]"
    using r [of None Completed None "[]"] by blast
  have f: "handleMessage (fst ?r) None (Some ''zzz'') Completed = [Responded 404]"
    using r [of "Some ''zzz''" Completed None "''zzz''"] q z by simp
  show ?thesis using h2 h3 h5 ev a b c d e q z f new by simp
qed

end
